theory Spec2Isabelle
  imports Main "HOL-Library.Signed_Division"
begin

section \<open>The updater's surroundings: errors, events, environment\<close>

text \<open>
  The program is a Deno script: \<^verbatim>\<open>utils.ts\<close> (notifications, run marker, log file),
  \<^verbatim>\<open>config.ts\<close> (the file \<^verbatim>\<open>vscu.json\<close>), \<^verbatim>\<open>updater.ts\<close> (class \<^verbatim>\<open>Updater\<close>) and
  \<^verbatim>\<open>vscode-updater.ts\<close> (\<^verbatim>\<open>start\<close> and its \<^verbatim>\<open>intervalLoop\<close>).

  Everything the script does to the outside is recorded, in order, in a trace of events
  kept in the program state. Everything it reads from the outside (the clock, the answer of
  the release API, the manifest of the installation, the output of \<^verbatim>\<open>tasklist\<close>, ...) is
  given by a \<open>world\<close>: for each kind of read, a function from the number of events that
  happened so far to what the read returns at that moment. A JavaScript exception is the
  value \<open>Inl (Throw e)\<close>, \<^verbatim>\<open>Deno.exit()\<close> is \<open>Inl Exit\<close>; the state reached is
  returned beside either of them, since what was mutated before a throw stays mutated.

  JavaScript numbers are modelled as \<open>int\<close>: intervals, epoch milliseconds and the
  rate-limit header are whole numbers (a header that is not a number, which \<^verbatim>\<open>Number\<close>
  turns into NaN, is outside the model).
\<close>

datatype error = Error string

fun err_message :: "error \<Rightarrow> string" where
  "err_message (Error m) = m"

datatype failure = Throw error | Exit

datatype arg = S string | N int | Stack error

datatype level = Info | Err | Debug

datatype event =
    Fetch string "(string \<times> string) list"
  | Stat string
  | ReadTextFile string
  | WriteFile string
  | Decompress string string
  | Remove string
  | Command string "string list"
  | Console level "arg list"
  | NotifyTimer int
  | Show string string
  | TickTimer int
  | ReadConfigDir
  | SetRun bool
  | CloseLog
  | ProcessExit

text \<open>The JSON body and the one header that \<^verbatim>\<open>getLatestVersion\<close> reads from the answer
  of the release API. \<open>None\<close> is an absent key (an absent header).\<close>

record api_response =
  tag_name :: "string option"
  zipball_url :: "string option"
  api_message :: "string option"
  ratelimit_reset :: "int option"

record http_response =
  ok :: bool
  status :: nat
  statusText :: string

text \<open>What \<^verbatim>\<open>getLocalVersion\<close> finds at the manifest path: \<^verbatim>\<open>statSync\<close> throws something
  other than NotFound, the file is absent, reading or parsing it throws, or it parses and
  its \<^verbatim>\<open>version\<close> field is read (\<open>None\<close> when the field is undefined).\<close>

datatype manifest = StatFails error | NotFound | ReadFails error | Content "string option"

text \<open>What \<^verbatim>\<open>checkConfig\<close> finds: the directory or the file cannot be read, no
  \<^verbatim>\<open>vscu.json\<close>, a file that fails validation, or a valid one.\<close>

datatype config_file = DirFails error | NoFile | Invalid error | Valid

record ConfigData =
  dir :: string
  interval :: int
  token :: "string option"

record world =
  now :: "nat \<Rightarrow> int"
  api :: "nat \<Rightarrow> error + api_response"
  manifest :: "nat \<Rightarrow> manifest"
  tasklist :: "nat \<Rightarrow> error + string"
  download :: "nat \<Rightarrow> error + http_response"
  writeFile :: "nat \<Rightarrow> error option"
  decompress :: "nat \<Rightarrow> error option"
  removeFile :: "nat \<Rightarrow> error option"
  vscu :: "nat \<Rightarrow> config_file"
  readConfig :: ConfigData
  normalize :: "string \<Rightarrow> string"
  tempDir :: string
  runned :: bool

text \<open>The mutable variables of the modules: \<^verbatim>\<open>Updater.reset\<close> (initially 100),
  \<^verbatim>\<open>lastMessage\<close> and \<^verbatim>\<open>lastTime\<close> of \<^verbatim>\<open>utils.ts\<close> (initially empty and 0), and the
  trace.\<close>

record state =
  reset :: int
  lastMessage :: string
  lastTime :: int
  trace :: "event list"

definition init :: state where
  "init = \<lparr>reset = 100, lastMessage = [], lastTime = 0, trace = []\<rparr>"

definition step :: "state \<Rightarrow> nat" where
  "step s = length (trace s)"

definition emit :: "event \<Rightarrow> state \<Rightarrow> state" where
  "emit e s = s\<lparr>trace := trace s @ [e]\<rparr>"

definition console :: "level \<Rightarrow> arg list \<Rightarrow> state \<Rightarrow> state" where
  "console l args s = emit (Console l args) s"

definition truthy :: "string \<Rightarrow> bool" where
  "truthy x = (x \<noteq> [])"

definition bs :: string where
  "bs = [CHR 0x5C]"

definition nl :: string where
  "nl = [CHR 0x0A]"

subsection \<open>config.ts: the getters of class Config\<close>

text \<open>In this section and the next ones the file is readable and unchanged while the program
  runs, so \<^verbatim>\<open>readConfig()\<close> is a constant of the world. The program with the file
  read again, and failing to read, is modelled in a section of its own further down.\<close>

definition config_dir :: "world \<Rightarrow> string" where
  "config_dir w = normalize w (dir (readConfig w))"

definition config_interval :: "world \<Rightarrow> int" where
  "config_interval w =
     (if interval (readConfig w) = 0 then 30 * 60 * 1000 else interval (readConfig w))"

definition config_token :: "world \<Rightarrow> string option" where
  "config_token w = token (readConfig w)"

definition checkConfig :: "world \<Rightarrow> state \<Rightarrow> (failure + bool) \<times> state" where
  "checkConfig w s =
     (let s1 = emit ReadConfigDir s in
      case vscu w (step s) of
        DirFails e \<Rightarrow> (Inl (Throw e), s1)
      | NoFile \<Rightarrow> (Inr False, s1)
      | Invalid e \<Rightarrow>
          (Inl (Throw e),
           console Err [S (''Error in configuration file: '' @ err_message e)] s1)
      | Valid \<Rightarrow> (Inr True, s1))"

subsection \<open>utils.ts\<close>

definition notify :: "world \<Rightarrow> string \<Rightarrow> string \<Rightarrow> state \<Rightarrow> state" where
  "notify w title msg s =
     (if lastMessage s = msg then s
      else
        let s1 = s\<lparr>lastMessage := msg\<rparr>;
            ms = (if lastTime s1 = 0 then lastTime s1
                  else 1000 - (now w (step s1) - lastTime s1)) + 100;
            s2 = emit (NotifyTimer ms) s1;
            s3 = emit (Show title msg) s2
        in s3\<lparr>lastTime := now w (step s3)\<rparr>)"

definition exit :: "world \<Rightarrow> string option \<Rightarrow> state \<Rightarrow> (failure + unit) \<times> state" where
  "exit w msg s =
     (let s1 = (case msg of
                  None \<Rightarrow> s
                | Some m \<Rightarrow> if truthy m then notify w ''Vscode Updater Error'' m s else s);
          s2 = emit (SetRun False) s1;
          s3 = emit CloseLog s2
      in (Inl Exit, emit ProcessExit s3))"

function digits :: "nat \<Rightarrow> string" where
  "digits n =
     (if n < 10 then [char_of (48 + n)] else digits (n div 10) @ [char_of (48 + n mod 10)])"
  by pat_completeness auto
termination
  by (relation "measure id") auto

definition show_number :: "int \<Rightarrow> string" where
  "show_number i = (if i < 0 then ''-'' @ digits (nat (- i)) else digits (nat i))"

definition formatMillisecondes :: "int \<Rightarrow> string" where
  "formatMillisecondes ms =
     (let secondes = ms div 1000;
          minutes = secondes div 60;
          heures = minutes div 60;
          days = heures div 24;
          secondesRemaining = secondes smod 60;
          minutesRemaining = minutes smod 60;
          hoursRemaining = heures smod 24
      in (if days > 0 then show_number days @ '' days, '' else [])
         @ (if hoursRemaining \<noteq> 0 then show_number hoursRemaining @ '' heures, '' else [])
         @ (if minutesRemaining \<noteq> 0 then show_number minutesRemaining @ '' minutes et ''
            else [])
         @ show_number secondesRemaining @ '' secondes'')"

declare digits.simps [simp del]

subsection \<open>updater.ts: class Updater\<close>

record Version =
  version :: string
  zipurl :: "string option"

definition api_uri :: string where
  "api_uri = ''https://api.github.com/repos/microsoft/vscode/releases/latest''"

text \<open>\<^verbatim>\<open>Number(resetHeader)\<close>: a missing header is \<^verbatim>\<open>null\<close>, and \<^verbatim>\<open>Number(null)\<close> is 0.\<close>

definition Number :: "int option \<Rightarrow> int" where
  "Number h = (case h of None \<Rightarrow> 0 | Some n \<Rightarrow> n)"

text \<open>
  \<^verbatim>\<open>getLatestVersion\<close>. The request headers are built in \<^verbatim>\<open>ReqHeaders\<close>, and the
  request is then made by \<^verbatim>\<open>fetch(uri)\<close>, with the uri alone: the event records the
  headers that \<^verbatim>\<open>fetch\<close> was given, which are none.
\<close>

definition getLatestVersion :: "world \<Rightarrow> state \<Rightarrow> (failure + Version option) \<times> state" where
  "getLatestVersion w s =
     (if reset s > 100 then (Inr None, s)
      else
        let (ReqHeaders, s1) =
              (case config_token w of
                 None \<Rightarrow> ([], s)
               | Some t \<Rightarrow>
                   if truthy t
                   then ([(''Authorization'', ''token '' @ t)],
                         console Debug [S ''Using token for authorization: ****''] s)
                   else ([], s));
            uri = api_uri;
            s2 = emit (Fetch uri []) s1
        in case api w (step s1) of
             Inl e \<Rightarrow> (Inl (Throw e), s2)
           | Inr data \<Rightarrow>
               let validity = ((tag_name data \<noteq> None \<and> zipball_url data \<noteq> None)
                               \<or> api_message data \<noteq> None);
                   s3 = console Debug [S ''Latest version response data validity: '',
                                       S (if validity then ''Valid'' else ''Invalid'')] s2;
                   resetHeader = ratelimit_reset data
               in case (case tag_name data of
                          None \<Rightarrow> None
                        | Some t \<Rightarrow> if truthy t then Some t else None) of
                    Some t \<Rightarrow> (Inr (Some \<lparr>version = t, zipurl = zipball_url data\<rparr>), s3)
                  | None \<Rightarrow>
                      let s4 = (case api_message data of
                                  None \<Rightarrow> s3
                                | Some m \<Rightarrow>
                                    if truthy m
                                    then console Err [S (''Error on getting latest infos.'' @ nl),
                                                      S m] s3
                                    else s3)
                      in (Inr None, s4\<lparr>reset := Number resetHeader * 1000 - now w (step s4)\<rparr>))"

definition getLocalVersion :: "world \<Rightarrow> state \<Rightarrow> (failure + string option) \<times> state" where
  "getLocalVersion w s =
     (let path = normalize w
                   (config_dir w @ bs @ ''resources'' @ bs @ ''app'' @ bs @ ''package.json'');
          s1 = emit (Stat path) s
      in case manifest w (step s) of
           StatFails e \<Rightarrow> (Inl (Throw e), s1)
         | NotFound \<Rightarrow>
             (Inr None,
              notify w ''Vscode Updater Error''
                ''Unable to find the local version, please check the path in the configuration file.''
                s1)
         | ReadFails e \<Rightarrow> (Inl (Throw e), emit (ReadTextFile path) s1)
         | Content v \<Rightarrow> (Inr v, emit (ReadTextFile path) s1))"

definition checkUpdate :: "world \<Rightarrow> state \<Rightarrow> (failure + bool) \<times> state" where
  "checkUpdate w s =
     (case getLocalVersion w s of
        (Inl f, s1) \<Rightarrow> (Inl f, s1)
      | (Inr None, s1) \<Rightarrow> (Inr False, s1)
      | (Inr (Some local), s1) \<Rightarrow>
          (case getLatestVersion w s1 of
             (Inl f, s2) \<Rightarrow> (Inl f, s2)
           | (Inr latest, s2) \<Rightarrow>
               let needUpdate = (case latest of
                                   None \<Rightarrow> False
                                 | Some l \<Rightarrow> version l \<noteq> local)
               in if needUpdate
                  then (Inr True, notify w ''Vscode Updater'' ''Update available!'' s2)
                  else (Inr False, s2)))"

definition download_url :: "string \<Rightarrow> string" where
  "download_url v =
     ''https://vscode.download.prss.microsoft.com/dbazure/download/stable/ea1445cc7016315d0f5728f8e8b12a45dc0a7286/VSCode-win32-x64-''
     @ v @ ''.zip''"

definition archive_path :: "world \<Rightarrow> string \<Rightarrow> string" where
  "archive_path w v = normalize w (tempDir w @ bs @ ''VSCode-win32-x64-'' @ v @ ''.zip'')"

definition downloadLatest :: "world \<Rightarrow> string \<Rightarrow> state \<Rightarrow> (failure + string) \<times> state" where
  "downloadLatest w v s =
     (let url = download_url v;
          archivePath = archive_path w v;
          s1 = emit (Fetch url []) s
      in case download w (step s) of
           Inl e \<Rightarrow> (Inl (Throw e), s1)
         | Inr res \<Rightarrow>
             if \<not> ok res
             then (Inl (Throw (Error (''Failed to fetch '' @ url @ '' with status ''
                                       @ digits (status res) @ '', '' @ statusText res))), s1)
             else
               let s2 = emit (WriteFile archivePath) s1
               in case writeFile w (step s1) of
                    Some e \<Rightarrow> (Inl (Throw e), s2)
                  | None \<Rightarrow> (Inr archivePath, s2))"

definition updateProcess :: "world \<Rightarrow> state \<Rightarrow> (failure + unit) \<times> state" where
  "updateProcess w s =
     (case checkUpdate w s of
        (Inl f, s1) \<Rightarrow> (Inl f, s1)
      | (Inr False, s1) \<Rightarrow> (Inr (), s1)
      | (Inr True, s1) \<Rightarrow>
          (case getLatestVersion w s1 of
             (Inl f, s2) \<Rightarrow> (Inl f, s2)
           | (Inr None, s2) \<Rightarrow> (Inr (), s2)
           | (Inr (Some latest), s2) \<Rightarrow>
               let s3 = console Debug [S ''Downloading latest version: '', S (version latest)] s2
               in case downloadLatest w (version latest) s3 of
                    (Inl f, s4) \<Rightarrow> (Inl f, s4)
                  | (Inr archivePath, s4) \<Rightarrow>
                      let s5 = emit (Decompress archivePath (config_dir w)) s4
                      in case decompress w (step s4) of
                           Some e \<Rightarrow> (Inl (Throw e), s5)
                         | None \<Rightarrow>
                             let s6 = emit (Remove archivePath) s5
                             in case removeFile w (step s5) of
                                  Some e \<Rightarrow> (Inl (Throw e), s6)
                                | None \<Rightarrow> (Inr (), s6)))"

text \<open>\<^verbatim>\<open>String.prototype.includes\<close>: the pattern occurs somewhere in the text.\<close>

fun starts_with :: "string \<Rightarrow> string \<Rightarrow> bool" where
  "starts_with xs [] = True"
| "starts_with [] (p # ps) = False"
| "starts_with (x # xs) (p # ps) = (x = p \<and> starts_with xs ps)"

fun str_includes :: "string \<Rightarrow> string \<Rightarrow> bool" where
  "str_includes [] p = (p = [])"
| "str_includes (x # xs) p = (starts_with (x # xs) p \<or> str_includes xs p)"

definition isProcessRunning :: "world \<Rightarrow> string \<Rightarrow> state \<Rightarrow> (failure + bool) \<times> state" where
  "isProcessRunning w processName s =
     (let s1 = emit (Command ''tasklist'' [''/FI'', ''IMAGENAME eq '' @ processName]) s
      in case tasklist w (step s) of
           Inl e \<Rightarrow> (Inl (Throw e), s1)
         | Inr outputStr \<Rightarrow> (Inr (str_includes outputStr processName), s1))"

definition run :: "world \<Rightarrow> state \<Rightarrow> (failure + unit) \<times> state" where
  "run w s =
     (case checkUpdate w s of
        (Inl f, s1) \<Rightarrow> (Inl f, s1)
      | (Inr False, s1) \<Rightarrow> (Inr (), s1)
      | (Inr True, s1) \<Rightarrow>
          (case isProcessRunning w ''Code.exe'' s1 of
             (Inl f, s2) \<Rightarrow> (Inl f, s2)
           | (Inr False, s2) \<Rightarrow>
               (case getLatestVersion w s2 of
                  (Inl f, s3) \<Rightarrow> (Inl f, s3)
                | (Inr latest, s3) \<Rightarrow>
                    let s4 = (case latest of
                                None \<Rightarrow> s3
                              | Some l \<Rightarrow>
                                  notify w ''Vscode Updater''
                                    (''Updating vscode to the latest version '' @ version l) s3)
                    in updateProcess w s4)
           | (Inr True, s2) \<Rightarrow>
               (Inr (),
                notify w ''Vscode Updater''
                  (''Vscode is running, update skipped...'' @ nl
                   @ ''Please close vscode and run the updater again'') s2)))"

subsection \<open>vscode-updater.ts: intervalLoop\<close>

text \<open>The value of the local variable \<^verbatim>\<open>interval\<close> of \<^verbatim>\<open>intervalLoop\<close> when its
  \<^verbatim>\<open>while (true)\<close> is entered. The variable is not assigned afterwards.\<close>

definition loop_interval :: "world \<Rightarrow> state \<Rightarrow> int" where
  "loop_interval w s =
     (let i0 = config_interval w;
          i1 = (if reset s > 100 then reset s else i0);
          i2 = (if i1 < 100 then 100 else i1)
      in i2)"

text \<open>The \<^verbatim>\<open>try\<close> block of one iteration of the loop.\<close>

definition cycle :: "world \<Rightarrow> state \<Rightarrow> (failure + unit) \<times> state" where
  "cycle w s =
     (let s1 = console Info [S ''Checking configuration file...''] s
      in case checkConfig w s1 of
           (Inl f, s2) \<Rightarrow> (Inl f, s2)
         | (Inr found, s2) \<Rightarrow>
             let s3 = (if \<not> found
                       then notify w ''Vscode Updater Error'' ''Configuration file not found'' s2
                       else s2);
                 s4 = console Info [S ''Checking for updates...''] s3
             in case run w s4 of
                  (Inl f, s5) \<Rightarrow> (Inl f, s5)
                | (Inr u, s5) \<Rightarrow>
                    (Inr (), notify w ''Vscode Updater'' ''Update completed successfully!'' s5))"

text \<open>The \<^verbatim>\<open>catch\<close> block of the loop.\<close>

definition cycle_failed :: "world \<Rightarrow> error \<Rightarrow> state \<Rightarrow> state" where
  "cycle_failed w e s =
     (let s1 = console Info
                 [S ''An error occurred while checking for updates in the interval loop''] s;
          s2 = console Err [S (err_message e)] s1;
          s3 = console Err [Stack e] s2
      in notify w ''Vscode Updater Error''
           ''An error occurred, check the log file for more details in the output.log file.''
           s3)"

text \<open>One iteration of \<^verbatim>\<open>while (true)\<close>: the timer, then \<^verbatim>\<open>try\<close>/\<^verbatim>\<open>catch\<close>. A
  \<^verbatim>\<open>catch\<close> catches what was thrown; it does not catch \<^verbatim>\<open>Deno.exit()\<close>.\<close>

definition tick :: "world \<Rightarrow> int \<Rightarrow> state \<Rightarrow> (failure + unit) \<times> state" where
  "tick w ms s =
     (let s1 = emit (TickTimer ms) s;
          s2 = console Info [S ''Checking for updates in the interval loop...''] s1
      in case cycle w s2 of
           (Inl (Throw e), s3) \<Rightarrow> (Inr (), cycle_failed w e s3)
         | (Inl Exit, s3) \<Rightarrow> (Inl Exit, s3)
         | (Inr u, s3) \<Rightarrow> (Inr (), s3))"

text \<open>The loop never ends by itself. \<open>ticks w ms n s\<close> runs its first \<open>n\<close> iterations:
  \<open>Inr ()\<close> says that the loop is still running after them, \<open>Inl\<close> that it was left.\<close>

fun ticks :: "world \<Rightarrow> int \<Rightarrow> nat \<Rightarrow> state \<Rightarrow> (failure + unit) \<times> state" where
  "ticks w ms 0 s = (Inr (), s)"
| "ticks w ms (Suc n) s =
     (case tick w ms s of
        (Inl f, s1) \<Rightarrow> (Inl f, s1)
      | (Inr u, s1) \<Rightarrow> ticks w ms n s1)"

definition intervalLoop :: "world \<Rightarrow> nat \<Rightarrow> state \<Rightarrow> (failure + unit) \<times> state" where
  "intervalLoop w n s =
     (let ms = loop_interval w s;
          s2 = (if ms \<noteq> config_interval w
                then
                  let s1 = console Info
                             [S ''Interval changed to'', N ms, S ''ms from'',
                              N (config_interval w),
                              S ''ms, Probably due to rate limiting. Use github token to increase rate limit.'']
                             s
                  in notify w ''Vscode Updater''
                       (''Started with timeout of '' @ formatMillisecondes ms @ ''.'' @ nl
                        @ ''Probably due to rate limiting.'' @ nl
                        @ ''Use github token to increase rate limit.'') s1
                else s)
      in ticks w ms n s2)"

subsection \<open>Observations on a trace\<close>

text \<open>The requests the program sent, and what it did to the file system.\<close>

fun is_io :: "event \<Rightarrow> bool" where
  "is_io (Fetch u h) = True"
| "is_io (WriteFile p) = True"
| "is_io (Decompress p d) = True"
| "is_io (Remove p) = True"
| "is_io e = False"

definition io_events :: "state \<Rightarrow> event list" where
  "io_events s = filter is_io (trace s)"

text \<open>The steps of an update: a request to anything but the release API (a download), a
  file written, an archive unpacked, a file removed.\<close>

fun is_update_step :: "event \<Rightarrow> bool" where
  "is_update_step (Fetch u h) = (u \<noteq> api_uri)"
| "is_update_step e = is_io e"

definition update_steps :: "state \<Rightarrow> event list" where
  "update_steps s = filter is_update_step (trace s)"

fun is_fetch :: "event \<Rightarrow> bool" where
  "is_fetch (Fetch u h) = True"
| "is_fetch e = False"

definition fetches :: "state \<Rightarrow> event list" where
  "fetches s = filter is_fetch (trace s)"

fun is_show :: "event \<Rightarrow> bool" where
  "is_show (Show t m) = True"
| "is_show e = False"

definition shown :: "state \<Rightarrow> event list" where
  "shown s = filter is_show (trace s)"

fun is_tick :: "event \<Rightarrow> bool" where
  "is_tick (TickTimer ms) = True"
| "is_tick e = False"

definition waits :: "state \<Rightarrow> event list" where
  "waits s = filter is_tick (trace s)"

subsection \<open>Notices, and some concrete worlds\<close>

definition please_close :: string where
  "please_close = ''Vscode is running, update skipped...'' @ nl
                   @ ''Please close vscode and run the updater again''"

definition error_notice :: string where
  "error_notice =
     ''An error occurred, check the log file for more details in the output.log file.''"

definition update_available :: string where
  "update_available = ''Update available!''"

definition updating_to :: "string \<Rightarrow> string" where
  "updating_to v = ''Updating vscode to the latest version '' @ v"

definition release :: api_response where
  "release = \<lparr>tag_name = Some ''1.90.0'',
     zipball_url = Some ''https://api.github.com/repos/microsoft/vscode/zipball/1.90.0'',
     api_message = None, ratelimit_reset = Some 6000\<rparr>"

definition throttled :: api_response where
  "throttled = \<lparr>tag_name = None, zipball_url = None,
     api_message = Some ''API rate limit exceeded'', ratelimit_reset = Some 6000\<rparr>"

text \<open>\<open>calm\<close>: version 1.89.0 is installed, the API reports 1.90.0, the editor is not
  running and every request and file operation succeeds; the clock stands at 1000000 ms.
  The other worlds differ from it in one respect each.\<close>

definition calm :: world where
  "calm = \<lparr>now = (\<lambda>k. 1000000), api = (\<lambda>k. Inr release),
     manifest = (\<lambda>k. Content (Some ''1.89.0'')),
     tasklist = (\<lambda>k. Inr ''INFO: No tasks are running which match the specified criteria.''),
     download = (\<lambda>k. Inr \<lparr>ok = True, status = 200, statusText = ''OK''\<rparr>),
     writeFile = (\<lambda>k. None), decompress = (\<lambda>k. None), removeFile = (\<lambda>k. None),
     vscu = (\<lambda>k. Valid),
     readConfig = \<lparr>dir = ''E:/VSCode'', interval = 1800000, token = None\<rparr>,
     normalize = (\<lambda>p. p), tempDir = ''C:/Temp/deno'', runned = False\<rparr>"

definition current :: world where
  "current = calm\<lparr>manifest := (\<lambda>k. Content (Some ''1.90.0''))\<rparr>"

definition busy :: world where
  "busy = calm\<lparr>tasklist := (\<lambda>k. Inr ''Code.exe   4242 Console   1   312,000 K'')\<rparr>"

definition throttling :: world where
  "throttling = calm\<lparr>api := (\<lambda>k. Inr throttled)\<rparr>"

definition later :: world where
  "later = throttling\<lparr>now := (\<lambda>k. if k < 4 then 1000000 else 9000000)\<rparr>"

definition offline :: world where
  "offline = calm\<lparr>api := (\<lambda>k. Inl (Error ''error sending request''))\<rparr>"

definition with_token :: world where
  "with_token = calm\<lparr>readConfig := (readConfig calm)\<lparr>token := Some ''ghp_example''\<rparr>\<rparr>"

section \<open>The program with the configuration file re-read\<close>

text \<open>
  The getters of \<^verbatim>\<open>Config\<close> call \<^verbatim>\<open>readConfig()\<close>, which keeps the parsed file for
  1000 ms and otherwise reads and parses \<^verbatim>\<open>./vscu.json\<close> again. That can throw wherever a
  getter is used: in \<^verbatim>\<open>getLatestVersion\<close> (\<^verbatim>\<open>config.token\<close>), in \<^verbatim>\<open>getLocalVersion\<close> and
  \<^verbatim>\<open>updateProcess\<close> (\<^verbatim>\<open>config.dir\<close>), in the \<^verbatim>\<open>try\<close> block of \<^verbatim>\<open>start\<close>, and at the
  entry of \<^verbatim>\<open>intervalLoop\<close>. This section models the program with these reads; the
  operations carry the suffix \<open>_cfg\<close> where the name is taken by the operation of the
  sections before, which is the same operation for a file that reads as the same
  \<^verbatim>\<open>ConfigData\<close> every time (\<open>run_readable\<close>, \<open>intervalLoop_readable\<close> below).
\<close>

text \<open>What reading and parsing \<^verbatim>\<open>./vscu.json\<close> gives when \<open>k\<close> events have happened, beside the
  rest of the world. A file whose content is not a \<^verbatim>\<open>ConfigData\<close> counts as a failed
  read.\<close>

record cfg_world =
  env :: world
  vscu_json :: "nat \<Rightarrow> error + ConfigData"

text \<open>The state with the cache of \<^verbatim>\<open>readConfig\<close>: \<^verbatim>\<open>lastConfig\<close> (initially undefined)
  and \<^verbatim>\<open>lastConfigTime\<close> (initially 0).\<close>

record full_state =
  prog :: state
  lastConfig :: "ConfigData option"
  lastConfigTime :: int

definition init_cfg :: full_state where
  "init_cfg = \<lparr>prog = init, lastConfig = None, lastConfigTime = 0\<rparr>"

text \<open>An operation that does not read the configuration, applied to the \<open>prog\<close> part of
  the state.\<close>

definition on_prog :: "(state \<Rightarrow> state) \<Rightarrow> full_state \<Rightarrow> full_state" where
  "on_prog f s = s\<lparr>prog := f (prog s)\<rparr>"

definition in_prog :: "(state \<Rightarrow> 'a \<times> state) \<Rightarrow> full_state \<Rightarrow> 'a \<times> full_state" where
  "in_prog m s = (case m (prog s) of (r, p) \<Rightarrow> (r, s\<lparr>prog := p\<rparr>))"

definition readConfig_cfg :: "cfg_world \<Rightarrow> full_state \<Rightarrow> (failure + ConfigData) \<times> full_state" where
  "readConfig_cfg w s =
     (case (case lastConfig s of
              None \<Rightarrow> None
            | Some c \<Rightarrow>
                if now (env w) (step (prog s)) - lastConfigTime s < 1000 then Some c else None) of
        Some c \<Rightarrow> (Inr c, s)
      | None \<Rightarrow>
          (case vscu_json w (step (prog s)) of
             Inl e \<Rightarrow> (Inl (Throw e), s)
           | Inr data \<Rightarrow>
               (Inr data,
                s\<lparr>lastConfig := Some data, lastConfigTime := now (env w) (step (prog s))\<rparr>)))"

definition config_dir_cfg :: "cfg_world \<Rightarrow> full_state \<Rightarrow> (failure + string) \<times> full_state" where
  "config_dir_cfg w s =
     (case readConfig_cfg w s of
        (Inl f, s1) \<Rightarrow> (Inl f, s1)
      | (Inr c, s1) \<Rightarrow> (Inr (normalize (env w) (dir c)), s1))"

definition config_interval_cfg :: "cfg_world \<Rightarrow> full_state \<Rightarrow> (failure + int) \<times> full_state" where
  "config_interval_cfg w s =
     (case readConfig_cfg w s of
        (Inl f, s1) \<Rightarrow> (Inl f, s1)
      | (Inr c, s1) \<Rightarrow> (Inr (if interval c = 0 then 30 * 60 * 1000 else interval c), s1))"

definition config_token_cfg ::
  "cfg_world \<Rightarrow> full_state \<Rightarrow> (failure + string option) \<times> full_state" where
  "config_token_cfg w s =
     (case readConfig_cfg w s of
        (Inl f, s1) \<Rightarrow> (Inl f, s1)
      | (Inr c, s1) \<Rightarrow> (Inr (token c), s1))"

text \<open>The lines of \<^verbatim>\<open>getLatestVersion\<close> that build \<^verbatim>\<open>ReqHeaders\<close>: \<^verbatim>\<open>config.token\<close> is
  read in the test, again in the message of \<^verbatim>\<open>console.debug\<close>, and again for the header
  value.\<close>

definition truthy_token :: "string option \<Rightarrow> bool" where
  "truthy_token t = (case t of None \<Rightarrow> False | Some x \<Rightarrow> truthy x)"

definition request_headers_cfg ::
  "cfg_world \<Rightarrow> full_state \<Rightarrow> (failure + (string \<times> string) list) \<times> full_state" where
  "request_headers_cfg w s =
     (case config_token_cfg w s of
        (Inl f, s1) \<Rightarrow> (Inl f, s1)
      | (Inr t1, s1) \<Rightarrow>
          if \<not> truthy_token t1 then (Inr [], s1)
          else
            (case config_token_cfg w s1 of
               (Inl f, s2) \<Rightarrow> (Inl f, s2)
             | (Inr t2, s2) \<Rightarrow>
                 let s3 = on_prog
                            (console Debug
                               [S (''Using token for authorization: ''
                                   @ (if truthy_token t2 then ''****'' else ''No token''))]) s2
                 in case config_token_cfg w s3 of
                      (Inl f, s4) \<Rightarrow> (Inl f, s4)
                    | (Inr t3, s4) \<Rightarrow>
                        (Inr [(''Authorization'',
                               ''token '' @ (case t3 of None \<Rightarrow> ''undefined'' | Some t \<Rightarrow> t))],
                         s4)))"

text \<open>\<^verbatim>\<open>getLatestVersion\<close> from \<^verbatim>\<open>const uri\<close> on: the request and what is made of the
  answer. It reads no configuration.\<close>

definition query_latest :: "world \<Rightarrow> state \<Rightarrow> (failure + Version option) \<times> state" where
  "query_latest w s1 =
     (let uri = api_uri;
          s2 = emit (Fetch uri []) s1
      in case api w (step s1) of
           Inl e \<Rightarrow> (Inl (Throw e), s2)
         | Inr data \<Rightarrow>
             let validity = ((tag_name data \<noteq> None \<and> zipball_url data \<noteq> None)
                             \<or> api_message data \<noteq> None);
                 s3 = console Debug [S ''Latest version response data validity: '',
                                     S (if validity then ''Valid'' else ''Invalid'')] s2;
                 resetHeader = ratelimit_reset data
             in case (case tag_name data of
                        None \<Rightarrow> None
                      | Some t \<Rightarrow> if truthy t then Some t else None) of
                  Some t \<Rightarrow> (Inr (Some \<lparr>version = t, zipurl = zipball_url data\<rparr>), s3)
                | None \<Rightarrow>
                    let s4 = (case api_message data of
                                None \<Rightarrow> s3
                              | Some m \<Rightarrow>
                                  if truthy m
                                  then console Err [S (''Error on getting latest infos.'' @ nl),
                                                    S m] s3
                                  else s3)
                    in (Inr None, s4\<lparr>reset := Number resetHeader * 1000 - now w (step s4)\<rparr>))"

definition getLatestVersion_cfg ::
  "cfg_world \<Rightarrow> full_state \<Rightarrow> (failure + Version option) \<times> full_state" where
  "getLatestVersion_cfg w s =
     (if reset (prog s) > 100 then (Inr None, s)
      else
        case request_headers_cfg w s of
          (Inl f, s1) \<Rightarrow> (Inl f, s1)
        | (Inr ReqHeaders, s1) \<Rightarrow> in_prog (query_latest (env w)) s1)"

text \<open>\<^verbatim>\<open>getLocalVersion\<close> once the path of the manifest is known.\<close>

definition read_manifest :: "world \<Rightarrow> string \<Rightarrow> state \<Rightarrow> (failure + string option) \<times> state" where
  "read_manifest w path s =
     (let s1 = emit (Stat path) s
      in case manifest w (step s) of
           StatFails e \<Rightarrow> (Inl (Throw e), s1)
         | NotFound \<Rightarrow>
             (Inr None,
              notify w ''Vscode Updater Error''
                ''Unable to find the local version, please check the path in the configuration file.''
                s1)
         | ReadFails e \<Rightarrow> (Inl (Throw e), emit (ReadTextFile path) s1)
         | Content v \<Rightarrow> (Inr v, emit (ReadTextFile path) s1))"

definition getLocalVersion_cfg ::
  "cfg_world \<Rightarrow> full_state \<Rightarrow> (failure + string option) \<times> full_state" where
  "getLocalVersion_cfg w s =
     (case config_dir_cfg w s of
        (Inl f, s1) \<Rightarrow> (Inl f, s1)
      | (Inr d, s1) \<Rightarrow>
          let path = normalize (env w)
                       (d @ bs @ ''resources'' @ bs @ ''app'' @ bs @ ''package.json'')
          in in_prog (read_manifest (env w) path) s1)"

definition checkUpdate_cfg :: "cfg_world \<Rightarrow> full_state \<Rightarrow> (failure + bool) \<times> full_state" where
  "checkUpdate_cfg w s =
     (case getLocalVersion_cfg w s of
        (Inl f, s1) \<Rightarrow> (Inl f, s1)
      | (Inr None, s1) \<Rightarrow> (Inr False, s1)
      | (Inr (Some local), s1) \<Rightarrow>
          (case getLatestVersion_cfg w s1 of
             (Inl f, s2) \<Rightarrow> (Inl f, s2)
           | (Inr latest, s2) \<Rightarrow>
               let needUpdate = (case latest of
                                   None \<Rightarrow> False
                                 | Some l \<Rightarrow> version l \<noteq> local)
               in if needUpdate
                  then (Inr True,
                        on_prog (notify (env w) ''Vscode Updater'' ''Update available!'') s2)
                  else (Inr False, s2)))"

definition updateProcess_cfg :: "cfg_world \<Rightarrow> full_state \<Rightarrow> (failure + unit) \<times> full_state" where
  "updateProcess_cfg w s =
     (case checkUpdate_cfg w s of
        (Inl f, s1) \<Rightarrow> (Inl f, s1)
      | (Inr False, s1) \<Rightarrow> (Inr (), s1)
      | (Inr True, s1) \<Rightarrow>
          (case getLatestVersion_cfg w s1 of
             (Inl f, s2) \<Rightarrow> (Inl f, s2)
           | (Inr None, s2) \<Rightarrow> (Inr (), s2)
           | (Inr (Some latest), s2) \<Rightarrow>
               let s3 = on_prog (console Debug [S ''Downloading latest version: '',
                                                S (version latest)]) s2
               in case in_prog (downloadLatest (env w) (version latest)) s3 of
                    (Inl f, s4) \<Rightarrow> (Inl f, s4)
                  | (Inr archivePath, s4) \<Rightarrow>
                      (case config_dir_cfg w s4 of
                         (Inl f, s5) \<Rightarrow> (Inl f, s5)
                       | (Inr d, s5) \<Rightarrow>
                           let s6 = on_prog (emit (Decompress archivePath d)) s5
                           in case decompress (env w) (step (prog s5)) of
                                Some e \<Rightarrow> (Inl (Throw e), s6)
                              | None \<Rightarrow>
                                  let s7 = on_prog (emit (Remove archivePath)) s6
                                  in case removeFile (env w) (step (prog s6)) of
                                       Some e \<Rightarrow> (Inl (Throw e), s7)
                                     | None \<Rightarrow> (Inr (), s7))))"

definition run_cfg :: "cfg_world \<Rightarrow> full_state \<Rightarrow> (failure + unit) \<times> full_state" where
  "run_cfg w s =
     (case checkUpdate_cfg w s of
        (Inl f, s1) \<Rightarrow> (Inl f, s1)
      | (Inr False, s1) \<Rightarrow> (Inr (), s1)
      | (Inr True, s1) \<Rightarrow>
          (case in_prog (isProcessRunning (env w) ''Code.exe'') s1 of
             (Inl f, s2) \<Rightarrow> (Inl f, s2)
           | (Inr False, s2) \<Rightarrow>
               (case getLatestVersion_cfg w s2 of
                  (Inl f, s3) \<Rightarrow> (Inl f, s3)
                | (Inr latest, s3) \<Rightarrow>
                    let s4 = (case latest of
                                None \<Rightarrow> s3
                              | Some l \<Rightarrow>
                                  on_prog (notify (env w) ''Vscode Updater''
                                    (''Updating vscode to the latest version '' @ version l)) s3)
                    in updateProcess_cfg w s4)
           | (Inr True, s2) \<Rightarrow>
               (Inr (),
                on_prog (notify (env w) ''Vscode Updater''
                  (''Vscode is running, update skipped...'' @ nl
                   @ ''Please close vscode and run the updater again'')) s2)))"

definition cycle_cfg :: "cfg_world \<Rightarrow> full_state \<Rightarrow> (failure + unit) \<times> full_state" where
  "cycle_cfg w s =
     (let s1 = on_prog (console Info [S ''Checking configuration file...'']) s
      in case in_prog (checkConfig (env w)) s1 of
           (Inl f, s2) \<Rightarrow> (Inl f, s2)
         | (Inr found, s2) \<Rightarrow>
             let s3 = (if \<not> found
                       then on_prog (notify (env w) ''Vscode Updater Error''
                                       ''Configuration file not found'') s2
                       else s2);
                 s4 = on_prog (console Info [S ''Checking for updates...'']) s3
             in case run_cfg w s4 of
                  (Inl f, s5) \<Rightarrow> (Inl f, s5)
                | (Inr u, s5) \<Rightarrow>
                    (Inr (),
                     on_prog (notify (env w) ''Vscode Updater''
                                ''Update completed successfully!'') s5))"

definition tick_cfg :: "cfg_world \<Rightarrow> int \<Rightarrow> full_state \<Rightarrow> (failure + unit) \<times> full_state" where
  "tick_cfg w ms s =
     (let s1 = on_prog (emit (TickTimer ms)) s;
          s2 = on_prog (console Info [S ''Checking for updates in the interval loop...'']) s1
      in case cycle_cfg w s2 of
           (Inl (Throw e), s3) \<Rightarrow> (Inr (), on_prog (cycle_failed (env w) e) s3)
         | (Inl Exit, s3) \<Rightarrow> (Inl Exit, s3)
         | (Inr u, s3) \<Rightarrow> (Inr (), s3))"

fun ticks_cfg :: "cfg_world \<Rightarrow> int \<Rightarrow> nat \<Rightarrow> full_state \<Rightarrow> (failure + unit) \<times> full_state" where
  "ticks_cfg w ms 0 s = (Inr (), s)"
| "ticks_cfg w ms (Suc n) s =
     (case tick_cfg w ms s of
        (Inl f, s1) \<Rightarrow> (Inl f, s1)
      | (Inr u, s1) \<Rightarrow> ticks_cfg w ms n s1)"

text \<open>\<^verbatim>\<open>intervalLoop\<close> reads \<^verbatim>\<open>config.interval\<close> when it initialises \<^verbatim>\<open>interval\<close>,
  again in the comparison, and again in the arguments of \<^verbatim>\<open>console.log\<close>, each time
  outside any \<^verbatim>\<open>try\<close>.\<close>

definition intervalLoop_cfg ::
  "cfg_world \<Rightarrow> nat \<Rightarrow> full_state \<Rightarrow> (failure + unit) \<times> full_state" where
  "intervalLoop_cfg w n s =
     (case config_interval_cfg w s of
        (Inl f, s1) \<Rightarrow> (Inl f, s1)
      | (Inr i0, s1) \<Rightarrow>
          let i1 = (if reset (prog s1) > 100 then reset (prog s1) else i0);
              ms = (if i1 < 100 then 100 else i1)
          in case config_interval_cfg w s1 of
               (Inl f, s2) \<Rightarrow> (Inl f, s2)
             | (Inr i, s2) \<Rightarrow>
                 (case (if ms \<noteq> i
                        then
                          (case config_interval_cfg w s2 of
                             (Inl f, s3) \<Rightarrow> (Inl f, s3)
                           | (Inr i', s3) \<Rightarrow>
                               let s4 = on_prog
                                          (console Info
                                             [S ''Interval changed to'', N ms, S ''ms from'', N i',
                                              S ''ms, Probably due to rate limiting. Use github token to increase rate limit.''])
                                          s3
                               in (Inr (),
                                   on_prog
                                     (notify (env w) ''Vscode Updater''
                                        (''Started with timeout of '' @ formatMillisecondes ms
                                         @ ''.'' @ nl @ ''Probably due to rate limiting.'' @ nl
                                         @ ''Use github token to increase rate limit.'')) s4))
                        else (Inr (), s2)) of
                    (Inl f, s5) \<Rightarrow> (Inl f, s5)
                  | (Inr u, s5) \<Rightarrow> ticks_cfg w ms n s5))"

text \<open>The \<^verbatim>\<open>try\<close> block of \<^verbatim>\<open>start\<close>: the first cycle, run at once.\<close>

definition first_cycle :: "cfg_world \<Rightarrow> full_state \<Rightarrow> (failure + unit) \<times> full_state" where
  "first_cycle w s =
     (let s1 = on_prog (console Info [S ''Checking configuration file...'']) s
      in case in_prog (checkConfig (env w)) s1 of
           (Inl f, s2) \<Rightarrow> (Inl f, s2)
         | (Inr found, s2) \<Rightarrow>
             (case (if \<not> found
                    then in_prog (exit (env w) (Some ''Configuration file not found'')) s2
                    else (Inr (), s2)) of
                (Inl f, s3) \<Rightarrow> (Inl f, s3)
              | (Inr u, s3) \<Rightarrow>
                  (case config_dir_cfg w s3 of
                     (Inl f, s4) \<Rightarrow> (Inl f, s4)
                   | (Inr d, s4) \<Rightarrow>
                       (case config_interval_cfg w s4 of
                          (Inl f, s5) \<Rightarrow> (Inl f, s5)
                        | (Inr i, s5) \<Rightarrow>
                            let s6 = on_prog
                                       (console Info
                                          [S (''Configuration file found:'' @ nl
                                              @ ''Install Dir:''),
                                           S d, S (nl @ ''Time interval in ms:''), N i]) s5;
                                s7 = on_prog (console Info [S ''Checking for updates...'']) s6
                            in run_cfg w s7))))"

text \<open>\<^verbatim>\<open>start\<close>. Its \<^verbatim>\<open>catch\<close> block logs the message and calls \<^verbatim>\<open>exit\<close>. What
  \<^verbatim>\<open>intervalLoop\<close> throws is not caught.\<close>

definition start :: "cfg_world \<Rightarrow> nat \<Rightarrow> full_state \<Rightarrow> (failure + unit) \<times> full_state" where
  "start w n s =
     (case (if runned (env w)
            then
              let s1 = on_prog (console Err [S ''Already running'']) s;
                  s2 = on_prog (notify (env w) ''Vscode Updater'' ''Already running'') s1
              in in_prog (exit (env w) None) s2
            else (Inr (), s)) of
        (Inl f, s3) \<Rightarrow> (Inl f, s3)
      | (Inr u, s3) \<Rightarrow>
          let s4 = on_prog (emit (SetRun True)) s3
          in case first_cycle w s4 of
               (Inl (Throw e), s5) \<Rightarrow>
                 in_prog
                   (exit (env w)
                      (Some ''An error occurred, check the log file for more details in the output.log file.''))
                   (on_prog (console Err [S (err_message e)]) s5)
             | (Inl Exit, s5) \<Rightarrow> (Inl Exit, s5)
             | (Inr u, s5) \<Rightarrow> intervalLoop_cfg w n s5)"

text \<open>\<open>offline_cfg\<close>: the world \<open>offline\<close> with a configuration file that reads well.
  \<open>deleted_cfg\<close>: the world \<open>calm\<close> after the configuration file has been deleted.\<close>

definition offline_cfg :: cfg_world where
  "offline_cfg = \<lparr>env = offline, vscu_json = (\<lambda>k. Inr (readConfig offline))\<rparr>"

definition deleted_cfg :: cfg_world where
  "deleted_cfg = \<lparr>env = calm\<lparr>vscu := (\<lambda>k. NoFile)\<rparr>,
                   vscu_json = (\<lambda>k. Inl (Error ''No such file or directory: ./vscu.json''))\<rparr>"

text \<open>The cache holds nothing or \<open>c\<close>; and the world of the earlier sections whose
  configuration is \<open>c\<close>.\<close>

definition cache_ok :: "ConfigData \<Rightarrow> full_state \<Rightarrow> bool" where
  "cache_ok c s = (lastConfig s = None \<or> lastConfig s = Some c)"

definition fixed :: "ConfigData \<Rightarrow> cfg_world \<Rightarrow> world" where
  "fixed c w = (env w)\<lparr>readConfig := c\<rparr>"

section \<open>Basic facts\<close>

lemmas obs_defs = io_events_def update_steps_def fetches_def shown_def waits_def

lemmas world_defs = calm_def current_def busy_def throttling_def later_def offline_def
  with_token_def release_def throttled_def init_def

lemmas model_defs = config_dir_def config_interval_def config_token_def checkConfig_def
  notify_def exit_def getLatestVersion_def getLocalVersion_def checkUpdate_def
  downloadLatest_def updateProcess_def isProcessRunning_def run_def loop_interval_def
  cycle_def cycle_failed_def tick_def intervalLoop_def
  Number_def truthy_def step_def Let_def archive_path_def

lemmas eval_defs = world_defs model_defs obs_defs emit_def console_def api_uri_def
  download_url_def bs_def nl_def update_available_def updating_to_def please_close_def
  error_notice_def

lemma emit_sel [simp]:
  "reset (emit e s) = reset s" "lastMessage (emit e s) = lastMessage s"
  "lastTime (emit e s) = lastTime s" "trace (emit e s) = trace s @ [e]"
  by (simp_all add: emit_def)

lemma console_sel [simp]:
  "reset (console l a s) = reset s" "lastMessage (console l a s) = lastMessage s"
  "lastTime (console l a s) = lastTime s" "trace (console l a s) = trace s @ [Console l a]"
  by (simp_all add: console_def)

lemma notify_reset [simp]: "reset (notify w t m s) = reset s"
  by (simp add: notify_def Let_def)

lemma notify_lastMessage [simp]: "lastMessage (notify w t m s) = m"
  by (simp add: notify_def Let_def)

lemma notify_trace:
  "trace (notify w t m s) =
     trace s @ (if lastMessage s = m then []
                else [NotifyTimer ((if lastTime s = 0 then lastTime s
                                    else 1000 - (now w (step s) - lastTime s)) + 100),
                      Show t m])"
  by (simp add: notify_def Let_def step_def)

lemma emit_obs [simp]:
  "update_steps (emit e s) = update_steps s @ (if is_update_step e then [e] else [])"
  "waits (emit e s) = waits s @ (if is_tick e then [e] else [])"
  "io_events (emit e s) = io_events s @ (if is_io e then [e] else [])"
  "shown (emit e s) = shown s @ (if is_show e then [e] else [])"
  "fetches (emit e s) = fetches s @ (if is_fetch e then [e] else [])"
  by (simp_all add: obs_defs)

lemma console_obs [simp]:
  "update_steps (console l a s) = update_steps s" "waits (console l a s) = waits s"
  "io_events (console l a s) = io_events s" "shown (console l a s) = shown s"
  "fetches (console l a s) = fetches s"
  by (simp_all add: console_def)

lemma notify_obs [simp]:
  "update_steps (notify w t m s) = update_steps s" "waits (notify w t m s) = waits s"
  "io_events (notify w t m s) = io_events s" "fetches (notify w t m s) = fetches s"
  "shown (notify w t m s) = shown s @ (if lastMessage s = m then [] else [Show t m])"
  by (simp_all add: notify_trace obs_defs)

subsection \<open>What each operation leaves alone\<close>

lemma getLatestVersion_quiet:
  "getLatestVersion w s = (r, s') \<Longrightarrow>
     r \<noteq> Inl Exit \<and> waits s' = waits s \<and> update_steps s' = update_steps s
     \<and> lastMessage s' = lastMessage s \<and> shown s' = shown s"
  by (auto simp: getLatestVersion_def Let_def obs_defs
           split: if_splits option.splits sum.splits prod.splits)

lemma getLatestVersion_Some:
  "getLatestVersion w s = (Inr (Some l), s') \<Longrightarrow>
     \<exists>k r. api w k = Inr r \<and> tag_name r = Some (version l) \<and> zipurl l = zipball_url r"
  apply (auto simp: getLatestVersion_def Let_def
           split: if_splits option.splits sum.splits prod.splits)
  apply force+
  done

lemma getLatestVersion_version:
  "getLatestVersion w s = (Inr (Some l), s') \<Longrightarrow> version l \<noteq> []"
  by (auto simp: getLatestVersion_def Let_def truthy_def
           split: if_splits option.splits sum.splits prod.splits)

lemma getLatestVersion_Inl:
  "getLatestVersion w s = (Inl f, s') \<Longrightarrow> \<exists>k e. api w k = Inl e"
  by (auto simp: getLatestVersion_def Let_def
           split: if_splits option.splits sum.splits prod.splits)

lemma getLocalVersion_quiet:
  "getLocalVersion w s = (r, s') \<Longrightarrow>
     r \<noteq> Inl Exit \<and> waits s' = waits s \<and> update_steps s' = update_steps s
     \<and> reset s' = reset s"
  by (auto simp: getLocalVersion_def Let_def split: manifest.splits)

lemma checkUpdate_quiet:
  "checkUpdate w s = (r, s') \<Longrightarrow>
     r \<noteq> Inl Exit \<and> waits s' = waits s \<and> update_steps s' = update_steps s"
  by (auto simp: checkUpdate_def Let_def
           split: prod.splits sum.splits option.splits if_splits
           dest!: getLocalVersion_quiet getLatestVersion_quiet)

lemma checkUpdate_True:
  "checkUpdate w s = (Inr True, s') \<Longrightarrow> lastMessage s' = ''Update available!''"
  by (auto simp: checkUpdate_def Let_def
           split: prod.splits sum.splits option.splits if_splits)

lemma isProcessRunning_quiet:
  "isProcessRunning w p s = (r, s') \<Longrightarrow>
     r \<noteq> Inl Exit \<and> waits s' = waits s \<and> update_steps s' = update_steps s
     \<and> lastMessage s' = lastMessage s \<and> reset s' = reset s"
  by (auto simp: isProcessRunning_def Let_def split: sum.splits)

lemma downloadLatest_quiet:
  "downloadLatest w v s = (r, s') \<Longrightarrow> r \<noteq> Inl Exit \<and> waits s' = waits s"
  by (auto simp: downloadLatest_def Let_def split: sum.splits if_splits option.splits)

lemma updateProcess_quiet:
  "updateProcess w s = (r, s') \<Longrightarrow> r \<noteq> Inl Exit \<and> waits s' = waits s"
  by (auto simp: updateProcess_def Let_def
           split: prod.splits sum.splits option.splits bool.splits
           dest!: checkUpdate_quiet getLatestVersion_quiet downloadLatest_quiet)

lemma run_quiet:
  "run w s = (r, s') \<Longrightarrow> r \<noteq> Inl Exit \<and> waits s' = waits s"
  by (auto simp: run_def Let_def
           split: prod.splits sum.splits option.splits bool.splits
           dest!: checkUpdate_quiet getLatestVersion_quiet isProcessRunning_quiet
                  updateProcess_quiet)

lemma checkConfig_quiet:
  "checkConfig w s = (r, s') \<Longrightarrow> r \<noteq> Inl Exit \<and> waits s' = waits s"
  by (auto simp: checkConfig_def Let_def split: config_file.splits)

lemma cycle_quiet:
  "cycle w s = (r, s') \<Longrightarrow> r \<noteq> Inl Exit \<and> waits s' = waits s"
  by (auto simp: cycle_def Let_def
           split: prod.splits sum.splits if_splits
           dest!: checkConfig_quiet run_quiet)

subsection \<open>A run that applies an update\<close>

text \<open>The release API answers every query with the same release \<open>r\<close>, whose tag \<open>L\<close>
  is not the installed version \<open>v\<close>; the program is not rate-limited.\<close>

lemma update_steps_io: "update_steps s = filter is_update_step (io_events s)"
proof -
  have "is_update_step e \<Longrightarrow> is_io e" for e
    by (cases e) auto
  then have "filter (\<lambda>e. is_io e \<and> is_update_step e) (trace s) = filter is_update_step (trace s)"
    by (intro filter_cong) auto
  then show ?thesis
    by (simp add: obs_defs)
qed

lemma fetches_io: "fetches s = filter is_fetch (io_events s)"
proof -
  have "is_fetch e \<Longrightarrow> is_io e" for e
    by (cases e) auto
  then have "filter (\<lambda>e. is_io e \<and> is_fetch e) (trace s) = filter is_fetch (trace s)"
    by (intro filter_cong) auto
  then show ?thesis
    by (simp add: obs_defs)
qed

lemma download_url_not_api: "download_url v \<noteq> api_uri"
  by (simp add: download_url_def api_uri_def)

lemma getLatestVersion_release:
  assumes "reset s \<le> 100" and "\<forall>k. api w k = Inr r" and "tag_name r = Some L" and "L \<noteq> []"
  shows "\<exists>s'. getLatestVersion w s = (Inr (Some \<lparr>version = L, zipurl = zipball_url r\<rparr>), s')
           \<and> reset s' = reset s \<and> lastMessage s' = lastMessage s
           \<and> io_events s' = io_events s @ [Fetch api_uri []] \<and> shown s' = shown s"
  using assms
  by (auto simp: getLatestVersion_def Let_def truthy_def split: option.splits)

lemma checkUpdate_release:
  assumes "reset s \<le> 100" and "\<forall>k. api w k = Inr r" and "tag_name r = Some L" and "L \<noteq> []"
    and "\<forall>k. manifest w k = Content (Some v)" and "L \<noteq> v"
  shows "\<exists>s'. checkUpdate w s = (Inr True, s')
           \<and> reset s' = reset s \<and> lastMessage s' = update_available
           \<and> io_events s' = io_events s @ [Fetch api_uri []]
           \<and> shown s' = shown s @ (if lastMessage s = update_available then []
                                     else [Show ''Vscode Updater'' update_available])"
proof -
  obtain s1 where s1: "getLocalVersion w s = (Inr (Some v), s1)" "reset s1 = reset s"
      "lastMessage s1 = lastMessage s" "io_events s1 = io_events s" "shown s1 = shown s"
    using assms(5) by (simp add: getLocalVersion_def Let_def)
  from getLatestVersion_release [OF _ assms(2,3,4), of s1] assms(1) s1(2)
  obtain s2 where s2: "getLatestVersion w s1 = (Inr (Some \<lparr>version = L, zipurl = zipball_url r\<rparr>), s2)"
      "reset s2 = reset s1" "lastMessage s2 = lastMessage s1"
      "io_events s2 = io_events s1 @ [Fetch api_uri []]" "shown s2 = shown s1"
    by auto
  show ?thesis
    using assms(6) by (simp add: checkUpdate_def s1 s2 update_available_def)
qed

lemma updateProcess_release:
  assumes "reset s \<le> 100" and "\<forall>k. api w k = Inr r" and "tag_name r = Some L" and "L \<noteq> []"
    and "\<forall>k. manifest w k = Content (Some v)" and "L \<noteq> v"
    and "\<forall>k. download w k = Inr res" and "ok res" and "\<forall>k. writeFile w k = None"
    and "\<forall>k. decompress w k = None" and "\<forall>k. removeFile w k = None"
  shows "\<exists>s'. updateProcess w s = (Inr (), s')
           \<and> io_events s' = io_events s @
                [Fetch api_uri [], Fetch api_uri [], Fetch (download_url L) [],
                 WriteFile (archive_path w L), Decompress (archive_path w L) (config_dir w),
                 Remove (archive_path w L)]
           \<and> shown s' = shown s @ (if lastMessage s = update_available then []
                                     else [Show ''Vscode Updater'' update_available])"
proof -
  from checkUpdate_release [OF assms(1-6)]
  obtain s1 where s1: "checkUpdate w s = (Inr True, s1)" "reset s1 = reset s"
      "io_events s1 = io_events s @ [Fetch api_uri []]"
      "shown s1 = shown s @ (if lastMessage s = update_available then []
                             else [Show ''Vscode Updater'' update_available])"
    by auto
  from getLatestVersion_release [OF _ assms(2,3,4), of s1] assms(1) s1(2)
  obtain s2 where s2: "getLatestVersion w s1 = (Inr (Some \<lparr>version = L, zipurl = zipball_url r\<rparr>), s2)"
      "io_events s2 = io_events s1 @ [Fetch api_uri []]" "shown s2 = shown s1"
    by auto
  show ?thesis
    using assms(7-11)
    by (simp add: updateProcess_def s1 s2 downloadLatest_def Let_def)
qed

lemma run_release:
  assumes "reset s \<le> 100" and "\<forall>k. api w k = Inr r" and "tag_name r = Some L" and "L \<noteq> []"
    and "\<forall>k. manifest w k = Content (Some v)" and "L \<noteq> v"
    and "\<forall>k. tasklist w k = Inr out" and "\<not> str_includes out ''Code.exe''"
    and "\<forall>k. download w k = Inr res" and "ok res" and "\<forall>k. writeFile w k = None"
    and "\<forall>k. decompress w k = None" and "\<forall>k. removeFile w k = None"
  shows "\<exists>s'. run w s = (Inr (), s')
           \<and> io_events s' = io_events s @
                [Fetch api_uri [], Fetch api_uri [], Fetch api_uri [], Fetch api_uri [],
                 Fetch (download_url L) [],
                 WriteFile (archive_path w L), Decompress (archive_path w L) (config_dir w),
                 Remove (archive_path w L)]
           \<and> shown s' = shown s @ (if lastMessage s = update_available then []
                                     else [Show ''Vscode Updater'' update_available])
                          @ [Show ''Vscode Updater'' (updating_to L),
                             Show ''Vscode Updater'' update_available]"
proof -
  from checkUpdate_release [OF assms(1-6)]
  obtain s1 where s1: "checkUpdate w s = (Inr True, s1)" "reset s1 = reset s"
      "lastMessage s1 = update_available"
      "io_events s1 = io_events s @ [Fetch api_uri []]"
      "shown s1 = shown s @ (if lastMessage s = update_available then []
                             else [Show ''Vscode Updater'' update_available])"
    by auto
  define s2 where "s2 = emit (Command ''tasklist'' [''/FI'', ''IMAGENAME eq Code.exe'']) s1"
  have p: "isProcessRunning w ''Code.exe'' s1 = (Inr False, s2)"
    using assms(7,8) by (simp add: isProcessRunning_def s2_def)
  have s2: "reset s2 \<le> 100" "lastMessage s2 = update_available" "io_events s2 = io_events s1"
      "shown s2 = shown s1"
    using assms(1) s1 by (simp_all add: s2_def)
  from getLatestVersion_release [OF s2(1) assms(2,3,4)]
  obtain s3 where s3: "getLatestVersion w s2 = (Inr (Some \<lparr>version = L, zipurl = zipball_url r\<rparr>), s3)"
      "reset s3 = reset s2" "lastMessage s3 = lastMessage s2"
      "io_events s3 = io_events s2 @ [Fetch api_uri []]" "shown s3 = shown s2"
    by auto
  define s4 where "s4 = notify w ''Vscode Updater'' (updating_to L) s3"
  have ne: "updating_to L \<noteq> update_available"
    by (simp add: updating_to_def update_available_def)
  have s4: "reset s4 \<le> 100" "lastMessage s4 = updating_to L" "io_events s4 = io_events s3"
      "shown s4 = shown s3 @ [Show ''Vscode Updater'' (updating_to L)]"
    using s2 s3 ne by (simp_all add: s4_def)
  from updateProcess_release [OF s4(1) assms(2-6) assms(9-13)]
  obtain s5 where s5: "updateProcess w s4 = (Inr (), s5)"
      "io_events s5 = io_events s4 @
                [Fetch api_uri [], Fetch api_uri [], Fetch (download_url L) [],
                 WriteFile (archive_path w L), Decompress (archive_path w L) (config_dir w),
                 Remove (archive_path w L)]"
      "shown s5 = shown s4 @ (if lastMessage s4 = update_available then []
                               else [Show ''Vscode Updater'' update_available])"
    by auto
  have "updateProcess w
          (notify w ''Vscode Updater'' (''Updating vscode to the latest version '' @ L) s3)
        = (Inr (), s5)"
    using s5(1) by (simp add: s4_def updating_to_def)
  then have "run w s = (Inr (), s5)"
    by (simp add: run_def s1 p s3)
  then show ?thesis
    using s1 s2 s3 s4 s5 ne by simp
qed

lemma calm_applies:
  shows "reset init \<le> 100" and "\<forall>k. api calm k = Inr release"
    and "tag_name release = Some ''1.90.0''" and "''1.90.0'' \<noteq> []"
    and "\<forall>k. manifest calm k = Content (Some ''1.89.0'')" and "''1.90.0'' \<noteq> ''1.89.0''"
    and "\<forall>k. tasklist calm k
           = Inr ''INFO: No tasks are running which match the specified criteria.''"
    and "\<not> str_includes ''INFO: No tasks are running which match the specified criteria.''
           ''Code.exe''"
    and "\<forall>k. download calm k = Inr \<lparr>ok = True, status = 200, statusText = ''OK''\<rparr>"
    and "ok \<lparr>ok = True, status = 200, statusText = ''OK''\<rparr>"
    and "\<forall>k. writeFile calm k = None" and "\<forall>k. decompress calm k = None"
    and "\<forall>k. removeFile calm k = None"
  by (simp_all add: calm_def release_def init_def)

subsection \<open>The loop\<close>

lemma cycle_failed_obs:
  "waits (cycle_failed w e s) = waits s"
  "lastMessage (cycle_failed w e s) = error_notice"
  "shown (cycle_failed w e s)
     = shown s @ (if lastMessage s = error_notice then []
                  else [Show ''Vscode Updater Error'' error_notice])"
  "Console Err [S (err_message e)] \<in> set (trace (cycle_failed w e s))"
  "Console Err [Stack e] \<in> set (trace (cycle_failed w e s))"
  by (simp_all add: cycle_failed_def Let_def error_notice_def notify_trace)

lemma tick_result:
  "tick w ms s = (r, s') \<Longrightarrow> r = Inr () \<and> waits s' = waits s @ [TickTimer ms]"
  by (auto simp: tick_def Let_def cycle_failed_obs
           split: prod.splits sum.splits failure.splits
           dest!: cycle_quiet)

lemma ticks_result:
  "ticks w ms n s = (r, s') \<Longrightarrow> r = Inr () \<and> waits s' = waits s @ replicate n (TickTimer ms)"
proof (induction n arbitrary: s)
  case 0
  then show ?case by simp
next
  case (Suc n)
  obtain r1 s1 where t: "tick w ms s = (r1, s1)"
    by (cases "tick w ms s")
  from tick_result [OF t] have r1: "r1 = Inr ()" and w1: "waits s1 = waits s @ [TickTimer ms]"
    by simp_all
  from Suc.prems t r1 have "ticks w ms n s1 = (r, s')"
    by simp
  from Suc.IH [OF this] w1 show ?case
    by simp
qed

lemma intervalLoop_result:
  "fst (intervalLoop w n s) = Inr ()
   \<and> waits (snd (intervalLoop w n s)) = waits s @ replicate n (TickTimer (loop_interval w s))"
proof -
  obtain r s' where l: "intervalLoop w n s = (r, s')"
    by (cases "intervalLoop w n s")
  define s2 where "s2 = (if loop_interval w s \<noteq> config_interval w
                then
                  let s1 = console Info
                             [S ''Interval changed to'', N (loop_interval w s), S ''ms from'',
                              N (config_interval w),
                              S ''ms, Probably due to rate limiting. Use github token to increase rate limit.'']
                             s
                  in notify w ''Vscode Updater''
                       (''Started with timeout of '' @ formatMillisecondes (loop_interval w s)
                        @ ''.'' @ nl @ ''Probably due to rate limiting.'' @ nl
                        @ ''Use github token to increase rate limit.'') s1
                else s)"
  have w2: "waits s2 = waits s"
    by (simp add: s2_def Let_def)
  have "ticks w (loop_interval w s) n s2 = (r, s')"
    using l by (simp add: intervalLoop_def s2_def Let_def)
  from ticks_result [OF this] w2 l show ?thesis
    by simp
qed

section \<open>Facts about the program with the configuration file re-read\<close>

lemmas cfg_defs = readConfig_cfg_def config_dir_cfg_def config_interval_cfg_def
  config_token_cfg_def truthy_token_def request_headers_cfg_def query_latest_def
  getLatestVersion_cfg_def read_manifest_def getLocalVersion_cfg_def checkUpdate_cfg_def
  updateProcess_cfg_def run_cfg_def cycle_cfg_def tick_cfg_def intervalLoop_cfg_def
  first_cycle_def start_def on_prog_def in_prog_def init_cfg_def offline_cfg_def
  deleted_cfg_def

lemma on_prog_sel [simp]:
  "prog (on_prog f s) = f (prog s)" "lastConfig (on_prog f s) = lastConfig s"
  "lastConfigTime (on_prog f s) = lastConfigTime s"
  by (simp_all add: on_prog_def)

lemma readConfig_cfg_quiet:
  "readConfig_cfg w s = (r, s') \<Longrightarrow> r \<noteq> Inl Exit \<and> prog s' = prog s"
  by (auto simp: readConfig_cfg_def split: option.splits sum.splits if_splits)

lemma config_getters_quiet:
  "config_dir_cfg w s = (rd, sd) \<Longrightarrow> rd \<noteq> Inl Exit \<and> prog sd = prog s"
  "config_interval_cfg w s = (ri, si) \<Longrightarrow> ri \<noteq> Inl Exit \<and> prog si = prog s"
  "config_token_cfg w s = (rt, st) \<Longrightarrow> rt \<noteq> Inl Exit \<and> prog st = prog s"
  by (auto simp: config_dir_cfg_def config_interval_cfg_def config_token_cfg_def
           split: prod.splits sum.splits dest!: readConfig_cfg_quiet)

lemma request_headers_cfg_quiet:
  "request_headers_cfg w s = (r, s') \<Longrightarrow> r \<noteq> Inl Exit \<and> waits (prog s') = waits (prog s)"
  by (auto simp: request_headers_cfg_def Let_def
           split: prod.splits sum.splits if_splits dest!: config_getters_quiet(3))

lemma query_latest_quiet:
  "query_latest w s = (r, s') \<Longrightarrow> r \<noteq> Inl Exit \<and> waits s' = waits s"
  by (auto simp: query_latest_def Let_def obs_defs
           split: if_splits option.splits sum.splits prod.splits)

lemma getLatestVersion_cfg_quiet:
  "getLatestVersion_cfg w s = (r, s') \<Longrightarrow> r \<noteq> Inl Exit \<and> waits (prog s') = waits (prog s)"
  by (auto simp: getLatestVersion_cfg_def in_prog_def
           split: prod.splits sum.splits if_splits
           dest!: request_headers_cfg_quiet query_latest_quiet)

lemma read_manifest_quiet:
  "read_manifest w p s = (r, s') \<Longrightarrow> r \<noteq> Inl Exit \<and> waits s' = waits s"
  by (auto simp: read_manifest_def Let_def split: manifest.splits)

lemma getLocalVersion_cfg_quiet:
  "getLocalVersion_cfg w s = (r, s') \<Longrightarrow> r \<noteq> Inl Exit \<and> waits (prog s') = waits (prog s)"
  by (auto simp: getLocalVersion_cfg_def in_prog_def Let_def
           split: prod.splits sum.splits
           dest!: config_getters_quiet(1) read_manifest_quiet)

lemma checkUpdate_cfg_quiet:
  "checkUpdate_cfg w s = (r, s') \<Longrightarrow> r \<noteq> Inl Exit \<and> waits (prog s') = waits (prog s)"
  by (auto simp: checkUpdate_cfg_def Let_def
           split: prod.splits sum.splits option.splits if_splits
           dest!: getLocalVersion_cfg_quiet getLatestVersion_cfg_quiet)

lemma updateProcess_cfg_quiet:
  "updateProcess_cfg w s = (r, s') \<Longrightarrow> r \<noteq> Inl Exit \<and> waits (prog s') = waits (prog s)"
  by (auto simp: updateProcess_cfg_def in_prog_def Let_def
           split: prod.splits sum.splits option.splits bool.splits
           dest!: checkUpdate_cfg_quiet getLatestVersion_cfg_quiet downloadLatest_quiet
                  config_getters_quiet(1))

lemma run_cfg_quiet:
  "run_cfg w s = (r, s') \<Longrightarrow> r \<noteq> Inl Exit \<and> waits (prog s') = waits (prog s)"
  by (auto simp: run_cfg_def in_prog_def Let_def
           split: prod.splits sum.splits option.splits bool.splits
           dest!: checkUpdate_cfg_quiet getLatestVersion_cfg_quiet isProcessRunning_quiet
                  updateProcess_cfg_quiet)

lemma cycle_cfg_quiet:
  "cycle_cfg w s = (r, s') \<Longrightarrow> r \<noteq> Inl Exit \<and> waits (prog s') = waits (prog s)"
  by (auto simp: cycle_cfg_def in_prog_def Let_def
           split: prod.splits sum.splits if_splits
           dest!: checkConfig_quiet run_cfg_quiet)

lemma tick_cfg_result:
  "tick_cfg w ms s = (r, s') \<Longrightarrow>
     r = Inr () \<and> waits (prog s') = waits (prog s) @ [TickTimer ms]"
  by (auto simp: tick_cfg_def Let_def cycle_failed_obs
           split: prod.splits sum.splits failure.splits
           dest!: cycle_cfg_quiet)

lemma ticks_cfg_result:
  "ticks_cfg w ms n s = (r, s') \<Longrightarrow>
     r = Inr () \<and> waits (prog s') = waits (prog s) @ replicate n (TickTimer ms)"
proof (induction n arbitrary: s)
  case 0
  then show ?case by simp
next
  case (Suc n)
  obtain r1 s1 where t: "tick_cfg w ms s = (r1, s1)"
    by (cases "tick_cfg w ms s")
  from tick_cfg_result [OF t]
  have r1: "r1 = Inr ()" and w1: "waits (prog s1) = waits (prog s) @ [TickTimer ms]"
    by simp_all
  from Suc.prems t r1 have "ticks_cfg w ms n s1 = (r, s')"
    by simp
  from Suc.IH [OF this] w1 show ?case
    by simp
qed

lemma intervalLoop_cfg_result:
  "intervalLoop_cfg w n s = (r, s') \<Longrightarrow>
     r = Inr () \<or> (\<exists>e. r = Inl (Throw e) \<and> prog s' = prog s)"
  apply (auto simp: intervalLoop_cfg_def Let_def
           split: prod.splits sum.splits if_splits failure.splits
           dest!: config_getters_quiet(2) ticks_cfg_result)
  apply (meson failure.exhaust)+
  done

subsection \<open>Agreement with the program of the earlier sections\<close>

text \<open>When the file reads as \<open>c\<close> every time and the cache holds nothing else, each
  operation returns what the operation of the earlier sections returns in the world whose
  configuration is \<open>c\<close>, and leaves the same \<open>prog\<close> state.\<close>

lemma cache_ok_on_prog [simp]: "cache_ok c (on_prog f s) = cache_ok c s"
  by (simp add: cache_ok_def)

lemma cache_ok_prog_update [simp]: "cache_ok c (s\<lparr>prog := p\<rparr>) = cache_ok c s"
  by (simp add: cache_ok_def)

lemma readConfig_cfg_readable:
  assumes "\<forall>k. vscu_json w k = Inr c" and "cache_ok c s"
  shows "\<exists>s'. readConfig_cfg w s = (Inr c, s') \<and> prog s' = prog s \<and> cache_ok c s'"
  using assms by (auto simp: readConfig_cfg_def cache_ok_def)

lemma getters_readable:
  assumes "\<forall>k. vscu_json w k = Inr c" and "cache_ok c s"
  shows "\<exists>s'. config_dir_cfg w s = (Inr (config_dir (fixed c w)), s')
               \<and> prog s' = prog s \<and> cache_ok c s'"
    and "\<exists>s'. config_interval_cfg w s = (Inr (config_interval (fixed c w)), s')
               \<and> prog s' = prog s \<and> cache_ok c s'"
    and "\<exists>s'. config_token_cfg w s = (Inr (config_token (fixed c w)), s')
               \<and> prog s' = prog s \<and> cache_ok c s'"
  using readConfig_cfg_readable [OF assms]
  by (auto simp: config_dir_cfg_def config_interval_cfg_def config_token_cfg_def
                 config_dir_def config_interval_def config_token_def fixed_def)

lemma request_headers_readable:
  assumes "\<forall>k. vscu_json w k = Inr c" and "cache_ok c s"
  shows "\<exists>s' h. request_headers_cfg w s = (Inr h, s')
           \<and> prog s' = (if truthy_token (config_token (fixed c w))
                         then console Debug [S ''Using token for authorization: ****''] (prog s)
                         else prog s)
           \<and> cache_ok c s'"
proof -
  from getters_readable(3) [OF assms] obtain s1
    where s1: "config_token_cfg w s = (Inr (config_token (fixed c w)), s1)"
      "prog s1 = prog s" "cache_ok c s1"
    by blast
  from getters_readable(3) [OF assms(1) s1(3)] obtain s2
    where s2: "config_token_cfg w s1 = (Inr (config_token (fixed c w)), s2)"
      "prog s2 = prog s1" "cache_ok c s2"
    by blast
  define s3 where "s3 = on_prog (console Debug [S ''Using token for authorization: ****'']) s2"
  have c3: "cache_ok c s3"
    using s2(3) by (simp add: s3_def)
  from getters_readable(3) [OF assms(1) c3] obtain s4
    where s4: "config_token_cfg w s3 = (Inr (config_token (fixed c w)), s4)"
      "prog s4 = prog s3" "cache_ok c s4"
    by blast
  show ?thesis
    using s1 s2 s4
    by (auto simp: request_headers_cfg_def Let_def s3_def)
qed

lemma getLatestVersion_split:
  "getLatestVersion w s =
     (if reset s > 100 then (Inr None, s)
      else query_latest w
             (if truthy_token (config_token w)
              then console Debug [S ''Using token for authorization: ****''] s else s))"
  by (auto simp: getLatestVersion_def query_latest_def truthy_token_def Let_def
           split: option.splits)

lemma notify_config [simp]: "notify (v\<lparr>readConfig := c\<rparr>) = notify v"
  by (intro ext) (simp add: notify_def Let_def)

lemma downloadLatest_config [simp]:
  "downloadLatest (v\<lparr>readConfig := c\<rparr>) = downloadLatest v"
  by (intro ext)
     (auto simp: downloadLatest_def archive_path_def Let_def split: sum.splits option.splits)

lemma isProcessRunning_config [simp]:
  "isProcessRunning (v\<lparr>readConfig := c\<rparr>) = isProcessRunning v"
  by (intro ext) (auto simp: isProcessRunning_def Let_def split: sum.splits)

lemma checkConfig_config [simp]: "checkConfig (v\<lparr>readConfig := c\<rparr>) = checkConfig v"
  by (intro ext) (auto simp: checkConfig_def Let_def split: config_file.splits)

lemma cycle_failed_config [simp]: "cycle_failed (v\<lparr>readConfig := c\<rparr>) = cycle_failed v"
  by (intro ext) (simp add: cycle_failed_def Let_def)

lemma query_latest_config [simp]: "query_latest (v\<lparr>readConfig := c\<rparr>) = query_latest v"
  by (rule ext)
     (auto simp: query_latest_def Let_def split: sum.splits option.splits)

lemma read_manifest_config [simp]: "read_manifest (v\<lparr>readConfig := c\<rparr>) = read_manifest v"
  by (intro ext) (auto simp: read_manifest_def Let_def split: manifest.splits)

lemma getLocalVersion_manifest:
  "getLocalVersion v s =
     read_manifest v
       (normalize v (config_dir v @ bs @ ''resources'' @ bs @ ''app'' @ bs @ ''package.json''))
       s"
  by (simp add: getLocalVersion_def read_manifest_def Let_def)

lemma getLatestVersion_readable:
  assumes "\<forall>k. vscu_json w k = Inr c" and "cache_ok c s"
    and "getLatestVersion (fixed c w) (prog s) = (r, p)"
  shows "\<exists>s'. getLatestVersion_cfg w s = (r, s') \<and> prog s' = p \<and> cache_ok c s'"
proof (cases "reset (prog s) > 100")
  case True
  then show ?thesis
    using assms by (simp add: getLatestVersion_split getLatestVersion_cfg_def)
next
  case False
  from request_headers_readable [OF assms(1,2)] obtain s1 h
    where s1: "request_headers_cfg w s = (Inr h, s1)"
      "prog s1 = (if truthy_token (config_token (fixed c w))
                  then console Debug [S ''Using token for authorization: ****''] (prog s)
                  else prog s)"
      "cache_ok c s1"
    by blast
  from assms(3) False s1(2) have "query_latest (env w) (prog s1) = (r, p)"
    by (simp add: getLatestVersion_split fixed_def)
  then show ?thesis
    using False s1 by (simp add: getLatestVersion_cfg_def in_prog_def)
qed

lemma getLocalVersion_readable:
  assumes "\<forall>k. vscu_json w k = Inr c" and "cache_ok c s"
    and "getLocalVersion (fixed c w) (prog s) = (r, p)"
  shows "\<exists>s'. getLocalVersion_cfg w s = (r, s') \<and> prog s' = p \<and> cache_ok c s'"
proof -
  from getters_readable(1) [OF assms(1,2)] obtain s1
    where s1: "config_dir_cfg w s = (Inr (config_dir (fixed c w)), s1)"
      "prog s1 = prog s" "cache_ok c s1"
    by blast
  have "read_manifest (env w)
          (normalize (env w) (config_dir (fixed c w) @ bs @ ''resources'' @ bs @ ''app'' @ bs
                             @ ''package.json'')) (prog s1) = (r, p)"
    using assms(3) s1(2)
    by (simp add: getLocalVersion_manifest fixed_def)
  then show ?thesis
    using s1 by (simp add: getLocalVersion_cfg_def in_prog_def Let_def)
qed

lemma checkUpdate_readable:
  assumes "\<forall>k. vscu_json w k = Inr c" and "cache_ok c s"
    and "checkUpdate (fixed c w) (prog s) = (r, p)"
  shows "\<exists>s'. checkUpdate_cfg w s = (r, s') \<and> prog s' = p \<and> cache_ok c s'"
proof -
  obtain r1 p1 where l: "getLocalVersion (fixed c w) (prog s) = (r1, p1)"
    by (cases "getLocalVersion (fixed c w) (prog s)")
  from getLocalVersion_readable [OF assms(1,2) l] obtain s1
    where s1: "getLocalVersion_cfg w s = (r1, s1)" "prog s1 = p1" "cache_ok c s1"
    by blast
  obtain r2 p2 where g: "getLatestVersion (fixed c w) (prog s1) = (r2, p2)"
    by (cases "getLatestVersion (fixed c w) (prog s1)")
  from getLatestVersion_readable [OF assms(1) s1(3) g] obtain s2
    where s2: "getLatestVersion_cfg w s1 = (r2, s2)" "prog s2 = p2" "cache_ok c s2"
    by blast
  have n: "notify (fixed c w) = notify (env w)"
    by (simp add: fixed_def)
  show ?thesis
    using assms(3) l s1 g s2 n
    by (auto simp: checkUpdate_def checkUpdate_cfg_def Let_def
             split: sum.splits option.splits if_splits)
qed


lemma updateProcess_readable:
  assumes "\<forall>k. vscu_json w k = Inr c" and "cache_ok c s"
    and "updateProcess (fixed c w) (prog s) = (r, p)"
  shows "\<exists>s'. updateProcess_cfg w s = (r, s') \<and> prog s' = p \<and> cache_ok c s'"
proof -
  obtain r1 p1 where l: "checkUpdate (fixed c w) (prog s) = (r1, p1)"
    by (cases "checkUpdate (fixed c w) (prog s)")
  from checkUpdate_readable [OF assms(1,2) l] obtain s1
    where s1: "checkUpdate_cfg w s = (r1, s1)" "prog s1 = p1" "cache_ok c s1"
    by blast
  obtain r2 p2 where g: "getLatestVersion (fixed c w) (prog s1) = (r2, p2)"
    by (cases "getLatestVersion (fixed c w) (prog s1)")
  from getLatestVersion_readable [OF assms(1) s1(3) g] obtain s2
    where s2: "getLatestVersion_cfg w s1 = (r2, s2)" "prog s2 = p2" "cache_ok c s2"
    by blast
  have e: "downloadLatest (fixed c w) = downloadLatest (env w)"
      "decompress (fixed c w) = decompress (env w)"
      "removeFile (fixed c w) = removeFile (env w)"
    by (simp_all add: fixed_def)
  show ?thesis
  proof (cases "\<exists>v. r1 = Inr True \<and> r2 = Inr (Some v)")
    case False
    then show ?thesis
      using assms(3) l s1 g s2
      by (auto simp: updateProcess_def updateProcess_cfg_def
               split: sum.splits option.splits bool.splits)
  next
    case True
    then obtain v where v: "r1 = Inr True" "r2 = Inr (Some v)"
      by blast
    let ?p3 = "console Debug [S ''Downloading latest version: '', S (version v)] p2"
    let ?s3 = "on_prog (console Debug [S ''Downloading latest version: '', S (version v)]) s2"
    obtain r4 p4 where dl: "downloadLatest (env w) (version v) ?p3 = (r4, p4)"
      by (cases "downloadLatest (env w) (version v) ?p3")
    have c4: "cache_ok c (?s3\<lparr>prog := p4\<rparr>)"
      using s2(3) by simp
    from getters_readable(1) [OF assms(1) c4] obtain s5
      where s5: "config_dir_cfg w (?s3\<lparr>prog := p4\<rparr>) = (Inr (config_dir (fixed c w)), s5)"
        "prog s5 = p4" "cache_ok c s5"
      by auto
    have o: "updateProcess (fixed c w) (prog s)
             = (case r4 of
                  Inl f \<Rightarrow> (Inl f, p4)
                | Inr archivePath \<Rightarrow>
                    let q5 = emit (Decompress archivePath (config_dir (fixed c w))) p4
                    in case decompress (env w) (step p4) of
                         Some e \<Rightarrow> (Inl (Throw e), q5)
                       | None \<Rightarrow>
                           let q6 = emit (Remove archivePath) q5
                           in case removeFile (env w) (step q5) of
                                Some e \<Rightarrow> (Inl (Throw e), q6)
                              | None \<Rightarrow> (Inr (), q6))"
      using l g v s1(2) dl e
      by (auto simp: updateProcess_def Let_def split: sum.splits option.splits)
    have n: "updateProcess_cfg w s
             = (case r4 of
                  Inl f \<Rightarrow> (Inl f, ?s3\<lparr>prog := p4\<rparr>)
                | Inr archivePath \<Rightarrow>
                    let q5 = on_prog (emit (Decompress archivePath (config_dir (fixed c w)))) s5
                    in case decompress (env w) (step p4) of
                         Some e \<Rightarrow> (Inl (Throw e), q5)
                       | None \<Rightarrow>
                           let q6 = on_prog (emit (Remove archivePath)) q5
                           in case removeFile (env w) (step (prog q5)) of
                                Some e \<Rightarrow> (Inl (Throw e), q6)
                              | None \<Rightarrow> (Inr (), q6))"
      using s1 s2 v dl s5
      by (auto simp: updateProcess_cfg_def in_prog_def Let_def
               split: sum.splits option.splits)
    show ?thesis
      using assms(3) s2(3) s5
      by (auto simp: o n Let_def split: sum.splits option.splits)
  qed
qed

lemma run_readable:
  assumes "\<forall>k. vscu_json w k = Inr c" and "cache_ok c s"
    and "run (fixed c w) (prog s) = (r, p)"
  shows "\<exists>s'. run_cfg w s = (r, s') \<and> prog s' = p \<and> cache_ok c s'"
proof -
  obtain r1 p1 where l: "checkUpdate (fixed c w) (prog s) = (r1, p1)"
    by (cases "checkUpdate (fixed c w) (prog s)")
  from checkUpdate_readable [OF assms(1,2) l] obtain s1
    where s1: "checkUpdate_cfg w s = (r1, s1)" "prog s1 = p1" "cache_ok c s1"
    by blast
  obtain r2 p2 where ip: "isProcessRunning (env w) ''Code.exe'' p1 = (r2, p2)"
    by (cases "isProcessRunning (env w) ''Code.exe'' p1")
  let ?s2 = "s1\<lparr>prog := p2\<rparr>"
  have c2: "cache_ok c ?s2"
    using s1(3) by simp
  obtain r3 p3 where g: "getLatestVersion (fixed c w) (prog ?s2) = (r3, p3)"
    by (cases "getLatestVersion (fixed c w) (prog ?s2)")
  from getLatestVersion_readable [OF assms(1) c2 g] obtain s3
    where s3: "getLatestVersion_cfg w ?s2 = (r3, s3)" "prog s3 = p3" "cache_ok c s3"
    by blast
  have e: "isProcessRunning (fixed c w) = isProcessRunning (env w)"
      "notify (fixed c w) = notify (env w)"
    by (simp_all add: fixed_def)
  show ?thesis
  proof (cases "\<exists>latest. r1 = Inr True \<and> r2 = Inr False \<and> r3 = Inr latest")
    case False
    then show ?thesis
      using assms(3) l s1 ip g s3 e
      by (auto simp: run_def run_cfg_def in_prog_def
               split: sum.splits option.splits bool.splits)
  next
    case True
    then obtain latest where v: "r1 = Inr True" "r2 = Inr False" "r3 = Inr latest"
      by blast
    let ?s4 = "(case latest of
                  None \<Rightarrow> s3
                | Some l \<Rightarrow>
                    on_prog (notify (env w) ''Vscode Updater''
                      (''Updating vscode to the latest version '' @ version l)) s3)"
    have c4: "cache_ok c ?s4"
      using s3(3) by (simp split: option.splits)
    have o: "run (fixed c w) (prog s) = updateProcess (fixed c w) (prog ?s4)"
      using l ip g v s3(2) e
      by (simp add: run_def Let_def split: option.splits)
    have n: "run_cfg w s = updateProcess_cfg w ?s4"
      using s1 ip v s3
      by (simp add: run_cfg_def in_prog_def Let_def)
    from assms(3) o have "updateProcess (fixed c w) (prog ?s4) = (r, p)"
      by simp
    from updateProcess_readable [OF assms(1) c4 this] show ?thesis
      by (simp add: n)
  qed
qed


lemma cycle_readable:
  assumes "\<forall>k. vscu_json w k = Inr c" and "cache_ok c s"
    and "cycle (fixed c w) (prog s) = (r, p)"
  shows "\<exists>s'. cycle_cfg w s = (r, s') \<and> prog s' = p \<and> cache_ok c s'"
proof -
  let ?p1 = "console Info [S ''Checking configuration file...''] (prog s)"
  obtain r2 p2 where cc: "checkConfig (env w) ?p1 = (r2, p2)"
    by (cases "checkConfig (env w) ?p1")
  have e: "checkConfig (fixed c w) = checkConfig (env w)"
      "notify (fixed c w) = notify (env w)"
    by (simp_all add: fixed_def)
  show ?thesis
  proof (cases r2)
    case (Inl f)
    then show ?thesis
      using assms(2,3) cc e by (simp add: cycle_def cycle_cfg_def in_prog_def Let_def)
  next
    case (Inr found)
    let ?s4 = "on_prog (console Info [S ''Checking for updates...''])
                 (if \<not> found
                  then on_prog (notify (env w) ''Vscode Updater Error''
                                  ''Configuration file not found'')
                         (on_prog (console Info [S ''Checking configuration file...'']) s
                            \<lparr>prog := p2\<rparr>)
                  else on_prog (console Info [S ''Checking configuration file...'']) s
                         \<lparr>prog := p2\<rparr>)"
    have c4: "cache_ok c ?s4"
      using assms(2) by simp
    obtain r5 p5 where rn: "run (fixed c w) (prog ?s4) = (r5, p5)"
      by (cases "run (fixed c w) (prog ?s4)")
    from run_readable [OF assms(1) c4 rn] obtain s5
      where s5: "run_cfg w ?s4 = (r5, s5)" "prog s5 = p5" "cache_ok c s5"
      by blast
    have o: "cycle (fixed c w) (prog s)
             = (case r5 of
                  Inl f \<Rightarrow> (Inl f, p5)
                | Inr u \<Rightarrow> (Inr (), notify (env w) ''Vscode Updater''
                                      ''Update completed successfully!'' p5))"
      using cc e Inr rn
      by (auto simp: cycle_def Let_def split: sum.splits if_splits)
    have n: "cycle_cfg w s
             = (case r5 of
                  Inl f \<Rightarrow> (Inl f, s5)
                | Inr u \<Rightarrow> (Inr (), on_prog (notify (env w) ''Vscode Updater''
                                               ''Update completed successfully!'') s5))"
      using cc Inr s5
      by (auto simp: cycle_cfg_def in_prog_def Let_def split: sum.splits if_splits)
    show ?thesis
      using assms(3) s5 by (auto simp: o n split: sum.splits)
  qed
qed

lemma tick_readable:
  assumes "\<forall>k. vscu_json w k = Inr c" and "cache_ok c s"
    and "tick (fixed c w) ms (prog s) = (r, p)"
  shows "\<exists>s'. tick_cfg w ms s = (r, s') \<and> prog s' = p \<and> cache_ok c s'"
proof -
  let ?s2 = "on_prog (console Info [S ''Checking for updates in the interval loop...''])
               (on_prog (emit (TickTimer ms)) s)"
  have c2: "cache_ok c ?s2"
    using assms(2) by simp
  obtain r3 p3 where cy: "cycle (fixed c w) (prog ?s2) = (r3, p3)"
    by (cases "cycle (fixed c w) (prog ?s2)")
  from cycle_readable [OF assms(1) c2 cy] obtain s3
    where s3: "cycle_cfg w ?s2 = (r3, s3)" "prog s3 = p3" "cache_ok c s3"
    by blast
  have e: "cycle_failed (fixed c w) = cycle_failed (env w)"
    by (simp add: fixed_def)
  show ?thesis
    using assms(3) cy s3 e
    by (auto simp: tick_def tick_cfg_def Let_def split: sum.splits failure.splits)
qed

lemma ticks_readable:
  assumes "\<forall>k. vscu_json w k = Inr c" and "cache_ok c s"
    and "ticks (fixed c w) ms n (prog s) = (r, p)"
  shows "\<exists>s'. ticks_cfg w ms n s = (r, s') \<and> prog s' = p \<and> cache_ok c s'"
  using assms(2,3)
proof (induction n arbitrary: s)
  case 0
  then show ?case by simp
next
  case (Suc n)
  obtain r1 p1 where t: "tick (fixed c w) ms (prog s) = (r1, p1)"
    by (cases "tick (fixed c w) ms (prog s)")
  from tick_readable [OF assms(1) Suc.prems(1) t] obtain s1
    where s1: "tick_cfg w ms s = (r1, s1)" "prog s1 = p1" "cache_ok c s1"
    by blast
  show ?case
  proof (cases r1)
    case (Inl f)
    then show ?thesis
      using Suc.prems t s1 by auto
  next
    case (Inr u)
    then have "ticks (fixed c w) ms n (prog s1) = (r, p)"
      using Suc.prems(2) t s1(2) by simp
    from Suc.IH [OF s1(3) this] show ?thesis
      using s1 Inr by simp
  qed
qed

lemma intervalLoop_readable:
  assumes "\<forall>k. vscu_json w k = Inr c" and "cache_ok c s"
    and "intervalLoop (fixed c w) n (prog s) = (r, p)"
  shows "\<exists>s'. intervalLoop_cfg w n s = (r, s') \<and> prog s' = p \<and> cache_ok c s'"
proof -
  from getters_readable(2) [OF assms(1,2)] obtain s1
    where s1: "config_interval_cfg w s = (Inr (config_interval (fixed c w)), s1)"
      "prog s1 = prog s" "cache_ok c s1"
    by blast
  from getters_readable(2) [OF assms(1) s1(3)] obtain s2
    where s2: "config_interval_cfg w s1 = (Inr (config_interval (fixed c w)), s2)"
      "prog s2 = prog s1" "cache_ok c s2"
    by blast
  from getters_readable(2) [OF assms(1) s2(3)] obtain s3
    where s3: "config_interval_cfg w s2 = (Inr (config_interval (fixed c w)), s3)"
      "prog s3 = prog s2" "cache_ok c s3"
    by blast
  let ?ms = "loop_interval (fixed c w) (prog s)"
  let ?s5 = "(if ?ms \<noteq> config_interval (fixed c w)
              then on_prog
                     (notify (env w) ''Vscode Updater''
                        (''Started with timeout of '' @ formatMillisecondes ?ms
                         @ ''.'' @ nl @ ''Probably due to rate limiting.'' @ nl
                         @ ''Use github token to increase rate limit.''))
                     (on_prog
                        (console Info
                           [S ''Interval changed to'', N ?ms, S ''ms from'',
                            N (config_interval (fixed c w)),
                            S ''ms, Probably due to rate limiting. Use github token to increase rate limit.''])
                        s3)
              else s2)"
  have c5: "cache_ok c ?s5"
    using s2(3) s3(3) by simp
  have e: "notify (fixed c w) = notify (env w)"
    by (simp add: fixed_def)
  have o: "intervalLoop (fixed c w) n (prog s) = ticks (fixed c w) ?ms n (prog ?s5)"
    using s1(2) s2(2) s3(2) e by (simp add: intervalLoop_def Let_def)
  have n: "intervalLoop_cfg w n s = ticks_cfg w ?ms n ?s5"
    using s1 s2 s3 by (simp add: intervalLoop_cfg_def loop_interval_def Let_def)
  from assms(3) o have "ticks (fixed c w) ?ms n (prog ?s5) = (r, p)"
    by simp
  from ticks_readable [OF assms(1) c5 this] show ?thesis
    by (simp add: n)
qed

section \<open>The claims\<close>

text \<open>
  C1. The claim: the archive of an applied update is fetched from the \<^verbatim>\<open>zipball_url\<close> that
  the release API reported. In the world \<open>calm\<close> the API reports release 1.90.0 with its
  \<^verbatim>\<open>zipball_url\<close>; the run applies the update, the one download is a request to
  \<open>download_url ''1.90.0''\<close>, a different address, and no request at all goes to the
  \<^verbatim>\<open>zipball_url\<close>.
\<close>

theorem zipball_url_not_fetched:
  "api calm 0 = Inr release
   \<and> zipball_url release = Some ''https://api.github.com/repos/microsoft/vscode/zipball/1.90.0''
   \<and> fst (run calm init) = Inr ()
   \<and> update_steps (snd (run calm init)) =
        [Fetch (download_url ''1.90.0'') [], WriteFile (archive_path calm ''1.90.0''),
         Decompress (archive_path calm ''1.90.0'') (config_dir calm),
         Remove (archive_path calm ''1.90.0'')]
   \<and> download_url ''1.90.0'' \<noteq> ''https://api.github.com/repos/microsoft/vscode/zipball/1.90.0''
   \<and> (\<forall>h. Fetch ''https://api.github.com/repos/microsoft/vscode/zipball/1.90.0'' h
            \<notin> set (trace (snd (run calm init))))"
  by (simp add: eval_defs)

text \<open>
  C1, amended. When a run applies an update, the archive is fetched from the address that
  \<^verbatim>\<open>downloadLatest\<close> builds from the version tag \<open>L\<close> of the release
  (\<open>download_url L\<close>, which ends in \<^verbatim>\<open>VSCode-win32-x64-<L>.zip\<close>). The requests of such a run are four queries of the
  release API and then that one download, whatever \<^verbatim>\<open>zipball_url\<close> the release
  \<open>r\<close> carries.
\<close>

theorem download_from_version_url:
  assumes "reset s \<le> 100" and "\<forall>k. api w k = Inr r" and "tag_name r = Some L" and "L \<noteq> []"
    and "\<forall>k. manifest w k = Content (Some v)" and "L \<noteq> v"
    and "\<forall>k. tasklist w k = Inr out" and "\<not> str_includes out ''Code.exe''"
    and "\<forall>k. download w k = Inr res" and "ok res" and "\<forall>k. writeFile w k = None"
    and "\<forall>k. decompress w k = None" and "\<forall>k. removeFile w k = None"
  shows "\<exists>s'. run w s = (Inr (), s')
           \<and> fetches s' = fetches s @
                [Fetch api_uri [], Fetch api_uri [], Fetch api_uri [], Fetch api_uri [],
                 Fetch (download_url L) []]"
proof -
  from run_release [OF assms] obtain s' where s': "run w s = (Inr (), s')"
      "io_events s' = io_events s @
                [Fetch api_uri [], Fetch api_uri [], Fetch api_uri [], Fetch api_uri [],
                 Fetch (download_url L) [],
                 WriteFile (archive_path w L), Decompress (archive_path w L) (config_dir w),
                 Remove (archive_path w L)]"
    by blast
  show ?thesis
    using s' by (simp add: fetches_io)
qed

theorem download_from_version_url_witness:
  "reset init \<le> 100 \<and> (\<forall>k. api calm k = Inr release) \<and> tag_name release = Some ''1.90.0''
   \<and> (\<forall>k. manifest calm k = Content (Some ''1.89.0''))
   \<and> (\<exists>s'. run calm init = (Inr (), s')
         \<and> fetches s' =
              [Fetch api_uri [], Fetch api_uri [], Fetch api_uri [], Fetch api_uri [],
               Fetch (download_url ''1.90.0'') []])"
proof -
  have i: "fetches init = []"
    by (simp add: init_def obs_defs)
  show ?thesis
    using download_from_version_url [OF calm_applies] calm_applies(1,2,3,5) i
    by simp
qed

text \<open>
  C2. The claim: once the clock has passed the reset time of a throttled answer, the next
  \<^verbatim>\<open>getLatestVersion\<close> queries the network again. In the world \<open>later\<close> the first query,
  at clock 1000000 ms, is answered with the rate-limit message and the reset header 6000
  (seconds), so \<^verbatim>\<open>reset\<close> becomes 5000000. After the loop's wait of that length the
  clock reads 9000000 ms, past the reset time 6000000 ms, and \<^verbatim>\<open>getLatestVersion\<close> still
  answers null without a request; three full iterations of the loop add no request to the
  first one. Nothing in the program assigns \<^verbatim>\<open>reset\<close> but the throttled branch itself,
  which is not reached again.
\<close>

theorem rate_limit_never_clears:
  "reset (snd (getLatestVersion later init)) = 5000000
   \<and> now later (step (snd (getLatestVersion later init))) + 5000000 = 6000 * 1000
   \<and> now later (step (emit (TickTimer 5000000) (snd (getLatestVersion later init))))
       = 9000000
   \<and> getLatestVersion later (emit (TickTimer 5000000) (snd (getLatestVersion later init)))
       = (Inr None, emit (TickTimer 5000000) (snd (getLatestVersion later init)))
   \<and> fetches (snd (intervalLoop later 3 (snd (getLatestVersion later init))))
       = [Fetch api_uri []]"
  by (simp add: eval_defs numeral_3_eq_3)

text \<open>
  C3. The claim: the delay before every tick is derived afresh from the rate-limit state
  of that moment. In the world \<open>throttling\<close>, started from the initial state, the loop
  is entered with the configured 1800000 ms. The first tick's query is throttled and sets
  \<^verbatim>\<open>reset\<close> to 5000000, from which the delay would be 5000000; the second tick
  waits 1800000 ms all the same.
\<close>

theorem delay_not_recomputed:
  "reset (snd (intervalLoop throttling 1 init)) = 5000000
   \<and> loop_interval throttling (snd (intervalLoop throttling 1 init)) = 5000000
   \<and> waits (snd (intervalLoop throttling 2 init)) = [TickTimer 1800000, TickTimer 1800000]"
  by (simp add: eval_defs numeral_2_eq_2)

text \<open>
  C3, amended. \<^verbatim>\<open>intervalLoop\<close> computes the delay once, before its first wait, from the
  state it is entered in: \<^verbatim>\<open>reset\<close> when that exceeds 100, the configured interval
  otherwise, and never less than the floor of 100 ms. Every tick waits exactly this delay:
  after \<open>n\<close> iterations the timers set by the loop are \<open>n\<close> copies of it, and the loop
  is still running.
\<close>

theorem loop_delay_fixed_at_entry:
  "fst (intervalLoop w n s) = Inr ()
   \<and> waits (snd (intervalLoop w n s)) = waits s @ replicate n (TickTimer (loop_interval w s))
   \<and> loop_interval w s = max 100 (if reset s > 100 then reset s else config_interval w)"
  using intervalLoop_result [of w n s]
  by (simp add: loop_interval_def Let_def max_def)

text \<open>
  C4. When the installed version and the version that the release API reports are the
  same string \<open>v\<close>, one run of the update cycle ends normally and does nothing of an
  update: no download request, no file written, nothing unpacked or removed. It shows no
  notification either. This holds in every state, rate-limited or not, and for every
  string, the empty one included.
\<close>

theorem equal_versions_no_update:
  assumes "\<forall>k. manifest w k = Content (Some v)"
    and "\<forall>k. \<exists>r. api w k = Inr r \<and> tag_name r = Some v"
  shows "\<exists>s'. run w s = (Inr (), s') \<and> update_steps s' = update_steps s
               \<and> shown s' = shown s"
proof -
  obtain s1 where s1: "getLocalVersion w s = (Inr (Some v), s1)" "shown s1 = shown s"
      "update_steps s1 = update_steps s"
    using assms(1) by (simp add: getLocalVersion_def Let_def)
  obtain r s2 where s2: "getLatestVersion w s1 = (r, s2)"
    by (cases "getLatestVersion w s1")
  have u: "update_steps s2 = update_steps s1"
    using getLatestVersion_quiet [OF s2] by simp
  have sh: "shown s2 = shown s1"
    using getLatestVersion_quiet [OF s2] by simp
  have "checkUpdate w s = (Inr False, s2)"
  proof (cases r)
    case (Inl f)
    then show ?thesis
      using getLatestVersion_Inl [of w s1 f s2] s2 assms(2) by (metis sum.distinct(1))
  next
    case (Inr latest)
    show ?thesis
    proof (cases latest)
      case None
      then show ?thesis by (simp add: checkUpdate_def s1 s2 Inr)
    next
      case (Some l)
      from s2 Inr Some have g: "getLatestVersion w s1 = (Inr (Some l), s2)"
        by simp
      from getLatestVersion_Some [OF g] obtain k r'
        where "api w k = Inr r'" "tag_name r' = Some (version l)"
        by blast
      moreover from assms(2) obtain r'' where "api w k = Inr r''" "tag_name r'' = Some v"
        by blast
      ultimately have "version l = v"
        by simp
      then show ?thesis by (simp add: checkUpdate_def s1 s2 Inr Some)
    qed
  qed
  then show ?thesis using u sh s1 by (simp add: run_def)
qed

theorem equal_versions_no_update_witness:
  "(\<forall>k. manifest current k = Content (Some ''1.90.0''))
   \<and> (\<forall>k. \<exists>r. api current k = Inr r \<and> tag_name r = Some ''1.90.0'')
   \<and> (\<exists>s'. run current init = (Inr (), s') \<and> update_steps s' = [] \<and> shown s' = [])"
proof -
  have m: "\<forall>k. manifest current k = Content (Some ''1.90.0'')"
    by (simp add: current_def calm_def)
  have a: "\<forall>k. \<exists>r. api current k = Inr r \<and> tag_name r = Some ''1.90.0''"
    by (simp add: current_def calm_def release_def)
  have i: "update_steps init = [] \<and> shown init = []"
    by (simp add: init_def obs_defs)
  show ?thesis
    using equal_versions_no_update [OF m a, of init] m a i by simp
qed

text \<open>
  C5. The installed version is \<open>v\<close>; the release API answers each query of the run (there
  are four) with a release whose tag is \<open>L\<close>, different from \<open>v\<close>; the program is not
  rate-limited; \<^verbatim>\<open>tasklist\<close> does not list \<^verbatim>\<open>Code.exe\<close>; the download answers with a
  success status and the file operations succeed. Then the run ends normally, and what it
  does of an update is exactly: one download request, the archive written to the temporary
  path, one extraction of that archive into the install directory, and the removal of the
  archive, in this order. The notice that the editor is being updated to \<open>L\<close> has been
  shown. (The latest version of a run is the \<^verbatim>\<open>version\<close> of what \<^verbatim>\<open>getLatestVersion\<close>
  returns, which is never the empty string: \<open>getLatestVersion_version\<close>.)
\<close>

theorem update_applied_once:
  assumes "reset s \<le> 100" and "\<forall>k. api w k = Inr r" and "tag_name r = Some L" and "L \<noteq> []"
    and "\<forall>k. manifest w k = Content (Some v)" and "L \<noteq> v"
    and "\<forall>k. tasklist w k = Inr out" and "\<not> str_includes out ''Code.exe''"
    and "\<forall>k. download w k = Inr res" and "ok res" and "\<forall>k. writeFile w k = None"
    and "\<forall>k. decompress w k = None" and "\<forall>k. removeFile w k = None"
  shows "\<exists>s'. run w s = (Inr (), s')
           \<and> update_steps s' = update_steps s @
                [Fetch (download_url L) [],
                 WriteFile (archive_path w L), Decompress (archive_path w L) (config_dir w),
                 Remove (archive_path w L)]
           \<and> Show ''Vscode Updater'' (updating_to L) \<in> set (shown s')"
proof -
  from run_release [OF assms] obtain s' where s': "run w s = (Inr (), s')"
      "io_events s' = io_events s @
                [Fetch api_uri [], Fetch api_uri [], Fetch api_uri [], Fetch api_uri [],
                 Fetch (download_url L) [],
                 WriteFile (archive_path w L), Decompress (archive_path w L) (config_dir w),
                 Remove (archive_path w L)]"
      "shown s' = shown s @ (if lastMessage s = update_available then []
                                     else [Show ''Vscode Updater'' update_available])
                          @ [Show ''Vscode Updater'' (updating_to L),
                             Show ''Vscode Updater'' update_available]"
    by blast
  show ?thesis
    using s' by (simp add: update_steps_io download_url_not_api)
qed

theorem update_applied_once_witness:
  "reset init \<le> 100 \<and> (\<forall>k. api calm k = Inr release) \<and> tag_name release = Some ''1.90.0''
   \<and> (\<forall>k. manifest calm k = Content (Some ''1.89.0''))
   \<and> (\<forall>k. tasklist calm k
          = Inr ''INFO: No tasks are running which match the specified criteria.'')
   \<and> \<not> str_includes ''INFO: No tasks are running which match the specified criteria.''
          ''Code.exe''
   \<and> (\<exists>s'. run calm init = (Inr (), s')
         \<and> update_steps s' =
              [Fetch (download_url ''1.90.0'') [], WriteFile (archive_path calm ''1.90.0''),
               Decompress (archive_path calm ''1.90.0'') (config_dir calm),
               Remove (archive_path calm ''1.90.0'')]
         \<and> Show ''Vscode Updater'' (updating_to ''1.90.0'') \<in> set (shown s'))"
proof -
  have i: "update_steps init = []"
    by (simp add: init_def obs_defs)
  show ?thesis
    using update_applied_once [OF calm_applies] calm_applies(1,2,3,5,7,8) i
    by simp
qed

text \<open>
  C6. Whenever the version comparison of a run detects a difference (\<^verbatim>\<open>checkUpdate\<close>
  answers true) and \<^verbatim>\<open>tasklist\<close> then reports the editor running (its output contains
  \<^verbatim>\<open>Code.exe\<close>), the run ends normally, the please-close notice is the one notification
  shown after the check, no request is sent after the check, and nothing of an update
  happens.
\<close>

theorem busy_skips_update:
  assumes "checkUpdate w s = (Inr True, s1)"
    and "tasklist w (step s1) = Inr out"
    and "str_includes out ''Code.exe''"
  shows "\<exists>s'. run w s = (Inr (), s')
           \<and> shown s' = shown s1 @ [Show ''Vscode Updater'' please_close]
           \<and> fetches s' = fetches s1
           \<and> update_steps s' = update_steps s"
proof -
  have m: "lastMessage s1 = ''Update available!''"
    using assms(1) by (rule checkUpdate_True)
  have u: "update_steps s1 = update_steps s"
    using checkUpdate_quiet [OF assms(1)] by simp
  have p: "isProcessRunning w ''Code.exe'' s1
           = (Inr True, emit (Command ''tasklist'' [''/FI'', ''IMAGENAME eq Code.exe'']) s1)"
    using assms(2,3) by (simp add: isProcessRunning_def)
  show ?thesis
    by (simp add: run_def assms(1) p m u please_close_def nl_def)
qed

theorem busy_skips_update_witness:
  "fst (checkUpdate busy init) = Inr True
   \<and> fst (run busy init) = Inr ()
   \<and> shown (snd (run busy init))
       = [Show ''Vscode Updater'' ''Update available!'', Show ''Vscode Updater'' please_close]
   \<and> update_steps (snd (run busy init)) = []"
proof -
  have f: "fst (checkUpdate busy init) = Inr True"
    by (simp add: world_defs model_defs)
  then have c: "checkUpdate busy init = (Inr True, snd (checkUpdate busy init))"
    by (simp add: prod_eq_iff)
  have t: "tasklist busy (step (snd (checkUpdate busy init)))
           = Inr ''Code.exe   4242 Console   1   312,000 K''"
    by (simp add: busy_def calm_def)
  have i: "str_includes ''Code.exe   4242 Console   1   312,000 K'' ''Code.exe''"
    by simp
  have s: "shown (snd (checkUpdate busy init)) = [Show ''Vscode Updater'' ''Update available!'']"
    by (simp add: world_defs model_defs shown_def emit_def console_def)
  have u: "update_steps init = []"
    by (simp add: init_def update_steps_def)
  show ?thesis
    using busy_skips_update [OF c t i] f s u by auto
qed

text \<open>
  C7. The claim: an error of any cycle, the first one included, is caught, logged and
  notified, and ends neither the loop nor the process. In the world \<open>offline_cfg\<close> the
  request of the first cycle fails; \<^verbatim>\<open>start\<close> catches the error, logs it, and calls
  \<^verbatim>\<open>exit\<close>: the process ends before the loop has set a single timer.
\<close>

theorem first_cycle_error_exits:
  "fst (start offline_cfg 3 init_cfg) = Inl Exit
   \<and> last (trace (prog (snd (start offline_cfg 3 init_cfg)))) = ProcessExit
   \<and> waits (prog (snd (start offline_cfg 3 init_cfg))) = []"
  by (simp add: cfg_defs eval_defs)

text \<open>
  C7, amended. In the loop, no iteration throws or exits, whatever the world does, a
  configuration file that cannot be read included: once entered, the loop is still running
  after any number of iterations. An error \<open>e\<close> thrown inside the \<^verbatim>\<open>try\<close> block of an
  iteration is caught there: its message and its stack are written to the log, and
  \<^verbatim>\<open>notify\<close> is called with the general error notice, which it shows unless that notice
  was the last message already. An error thrown in the first cycle, in \<^verbatim>\<open>start\<close>, is
  caught and its message logged, the same notice is handed to \<^verbatim>\<open>notify\<close>, and the
  process then exits. The one thing \<^verbatim>\<open>intervalLoop\<close> can throw is a failed read of the
  configured interval at its entry, before the first timer and outside every cycle.
\<close>

theorem loop_catches_start_exits:
  "fst (tick_cfg w ms s) = Inr ()
   \<and> fst (ticks_cfg w ms n s) = Inr ()
   \<and> (cycle_cfg w (on_prog (console Info [S ''Checking for updates in the interval loop...''])
                     (on_prog (emit (TickTimer ms)) s)) = (Inl (Throw e), s3)
        \<longrightarrow> tick_cfg w ms s = (Inr (), on_prog (cycle_failed (env w) e) s3)
            \<and> Console Err [S (err_message e)] \<in> set (trace (cycle_failed (env w) e (prog s3)))
            \<and> Console Err [Stack e] \<in> set (trace (cycle_failed (env w) e (prog s3)))
            \<and> lastMessage (cycle_failed (env w) e (prog s3)) = error_notice
            \<and> shown (cycle_failed (env w) e (prog s3))
                = shown (prog s3) @ (if lastMessage (prog s3) = error_notice then []
                                     else [Show ''Vscode Updater Error'' error_notice]))
   \<and> (\<not> runned (env w)
        \<and> first_cycle w (on_prog (emit (SetRun True)) s) = (Inl (Throw e'), s5)
        \<longrightarrow> fst (start w n s) = Inl Exit
            \<and> Console Err [S (err_message e')] \<in> set (trace (prog (snd (start w n s))))
            \<and> lastMessage (prog (snd (start w n s))) = error_notice
            \<and> last (trace (prog (snd (start w n s)))) = ProcessExit)
   \<and> (fst (intervalLoop_cfg w n s) = Inr ()
        \<or> (\<exists>x. fst (intervalLoop_cfg w n s) = Inl (Throw x)
                \<and> prog (snd (intervalLoop_cfg w n s)) = prog s))"
proof -
  have a: "fst (tick_cfg w ms s) = Inr ()"
    using tick_cfg_result [of w ms s "fst (tick_cfg w ms s)" "snd (tick_cfg w ms s)"] by simp
  have b: "fst (ticks_cfg w ms n s) = Inr ()"
    using ticks_cfg_result [of w ms n s "fst (ticks_cfg w ms n s)" "snd (ticks_cfg w ms n s)"]
    by simp
  have c: "tick_cfg w ms s = (Inr (), on_prog (cycle_failed (env w) e) s3)"
    if "cycle_cfg w (on_prog (console Info [S ''Checking for updates in the interval loop...''])
                     (on_prog (emit (TickTimer ms)) s)) = (Inl (Throw e), s3)"
    using that by (simp add: tick_cfg_def Let_def)
  have d: "fst (start w n s) = Inl Exit
            \<and> Console Err [S (err_message e')] \<in> set (trace (prog (snd (start w n s))))
            \<and> lastMessage (prog (snd (start w n s))) = error_notice
            \<and> last (trace (prog (snd (start w n s)))) = ProcessExit"
    if "\<not> runned (env w)" "first_cycle w (on_prog (emit (SetRun True)) s) = (Inl (Throw e'), s5)"
    using that
    by (simp add: start_def in_prog_def Let_def exit_def truthy_def error_notice_def
                  notify_trace)
  have f: "fst (intervalLoop_cfg w n s) = Inr ()
        \<or> (\<exists>x. fst (intervalLoop_cfg w n s) = Inl (Throw x)
                \<and> prog (snd (intervalLoop_cfg w n s)) = prog s)"
    using intervalLoop_cfg_result
            [of w n s "fst (intervalLoop_cfg w n s)" "snd (intervalLoop_cfg w n s)"]
    by simp
  show ?thesis
    using a b c d f by (simp add: cycle_failed_obs)
qed

theorem loop_catches_start_exits_witness:
  "fst (cycle_cfg deleted_cfg
          (on_prog (console Info [S ''Checking for updates in the interval loop...''])
             (on_prog (emit (TickTimer 1800000)) init_cfg)))
     = Inl (Throw (Error ''No such file or directory: ./vscu.json''))
   \<and> fst (tick_cfg deleted_cfg 1800000 init_cfg) = Inr ()
   \<and> shown (prog (snd (tick_cfg deleted_cfg 1800000 init_cfg)))
       = [Show ''Vscode Updater Error'' ''Configuration file not found'',
          Show ''Vscode Updater Error'' error_notice]
   \<and> \<not> runned (env offline_cfg)
   \<and> fst (first_cycle offline_cfg (on_prog (emit (SetRun True)) init_cfg))
       = Inl (Throw (Error ''error sending request''))
   \<and> fst (start offline_cfg 3 init_cfg) = Inl Exit
   \<and> last (trace (prog (snd (start offline_cfg 3 init_cfg)))) = ProcessExit"
proof -
  let ?c = "cycle_cfg deleted_cfg
          (on_prog (console Info [S ''Checking for updates in the interval loop...''])
             (on_prog (emit (TickTimer 1800000)) init_cfg))"
  let ?f = "first_cycle offline_cfg (on_prog (emit (SetRun True)) init_cfg)"
  have c: "fst ?c = Inl (Throw (Error ''No such file or directory: ./vscu.json''))"
    by (simp add: cfg_defs eval_defs)
  then have c': "?c = (Inl (Throw (Error ''No such file or directory: ./vscu.json'')), snd ?c)"
    by (simp add: prod_eq_iff)
  have sc: "shown (prog (snd ?c))
              = [Show ''Vscode Updater Error'' ''Configuration file not found'']
            \<and> lastMessage (prog (snd ?c)) = ''Configuration file not found''"
    by (simp add: cfg_defs eval_defs)
  have f: "fst ?f = Inl (Throw (Error ''error sending request''))"
    by (simp add: cfg_defs eval_defs)
  then have f': "?f = (Inl (Throw (Error ''error sending request'')), snd ?f)"
    by (simp add: prod_eq_iff)
  have r: "\<not> runned (env offline_cfg)"
    by (simp add: offline_cfg_def offline_def calm_def)
  have n: "error_notice \<noteq> ''Configuration file not found''"
    by (simp add: error_notice_def)
  show ?thesis
    using loop_catches_start_exits
            [of deleted_cfg 1800000 init_cfg 0
                "Error ''No such file or directory: ./vscu.json''" "snd ?c"]
          loop_catches_start_exits
            [of offline_cfg 0 init_cfg 3 _ _ "Error ''error sending request''" "snd ?f"]
          c c' sc f f' r n
    by auto
qed


text \<open>
  C8. The claim: with a token configured, the request to the release API carries it in an
  \<^verbatim>\<open>Authorization\<close> header. In the world \<open>with_token\<close> the configuration holds the
  token \<^verbatim>\<open>ghp_example\<close>; \<^verbatim>\<open>getLatestVersion\<close> sets the header in \<^verbatim>\<open>ReqHeaders\<close> and
  then calls \<^verbatim>\<open>fetch(uri)\<close> without them: the one request sent has no headers.
\<close>

theorem token_header_not_sent:
  "config_token with_token = Some ''ghp_example''
   \<and> fetches (snd (getLatestVersion with_token init)) = [Fetch api_uri []]"
  by (simp add: eval_defs)

text \<open>
  C9. The claim: in a state whose stored reset lies in the future, two consecutive calls of
  \<^verbatim>\<open>getLatestVersion\<close> make exactly one request. From a state with \<^verbatim>\<open>reset\<close> at
  5000000 the two calls make no request at all: the first is short-circuited as well.
\<close>

theorem short_circuit_zero_requests:
  "reset (init\<lparr>reset := 5000000\<rparr>) > 100
   \<and> fetches (snd (getLatestVersion calm
                     (snd (getLatestVersion calm (init\<lparr>reset := 5000000\<rparr>)))))
       = []"
  by (simp add: eval_defs)

text \<open>
  C9, amended. In a state whose stored \<^verbatim>\<open>reset\<close> exceeds 100, \<^verbatim>\<open>getLatestVersion\<close>
  answers null and leaves the state as it is, so two consecutive calls (any number of them)
  make no request. Exactly one request is made by two consecutive calls when the first
  starts with \<^verbatim>\<open>reset\<close> at most 100 and is answered without a tag and with a reset
  header more than 100 ms ahead of the clock: the first call sends the request and stores
  the remaining time, the second is short-circuited.
\<close>

theorem rate_limit_short_circuit:
  "(reset s > 100 \<longrightarrow> getLatestVersion w s = (Inr None, s))
   \<and> (reset s \<le> 100 \<and> (\<forall>k. api w k = Inr r) \<and> tag_name r = None
        \<and> (\<forall>k. Number (ratelimit_reset r) * 1000 - now w k > 100)
       \<longrightarrow> (\<exists>s1. getLatestVersion w s = (Inr None, s1)
                 \<and> fetches s1 = fetches s @ [Fetch api_uri []]
                 \<and> getLatestVersion w s1 = (Inr None, s1)))"
  by (auto simp: getLatestVersion_def Let_def fetches_def split: option.splits)

theorem rate_limit_short_circuit_witness:
  "reset (init\<lparr>reset := 5000000\<rparr>) > 100
   \<and> getLatestVersion calm (init\<lparr>reset := 5000000\<rparr>) = (Inr None, init\<lparr>reset := 5000000\<rparr>)
   \<and> reset init \<le> 100 \<and> (\<forall>k. api throttling k = Inr throttled) \<and> tag_name throttled = None
   \<and> (\<forall>k. Number (ratelimit_reset throttled) * 1000 - now throttling k > 100)
   \<and> (\<exists>s1. getLatestVersion throttling init = (Inr None, s1)
          \<and> fetches s1 = [Fetch api_uri []]
          \<and> getLatestVersion throttling s1 = (Inr None, s1))"
proof -
  have a: "reset (init\<lparr>reset := 5000000\<rparr>) > 100"
    by (simp add: init_def)
  have b: "reset init \<le> 100 \<and> (\<forall>k. api throttling k = Inr throttled)
           \<and> tag_name throttled = None
           \<and> (\<forall>k. Number (ratelimit_reset throttled) * 1000 - now throttling k > 100)"
    by (simp add: init_def throttling_def calm_def throttled_def Number_def)
  have i: "fetches init = []"
    by (simp add: init_def fetches_def)
  show ?thesis
    using rate_limit_short_circuit [of "init\<lparr>reset := 5000000\<rparr>" calm throttled]
      rate_limit_short_circuit [of init throttling throttled] a b i
    by simp
qed

text \<open>
  C10. Two successive calls of \<^verbatim>\<open>notify\<close> with the same message, whatever the titles: the
  second call changes nothing. The state after it is the state before it, so no timer is
  set, nothing is shown, and \<^verbatim>\<open>lastMessage\<close> and \<^verbatim>\<open>lastTime\<close> keep their values.
\<close>

theorem notify_same_message_twice:
  "notify w t2 m (notify w t1 m s) = notify w t1 m s"
  by (simp add: notify_def Let_def)

end
